theory Spec2Isabelle
  imports
    Complex_Main
    "HOL-Library.Char_ord"
    "HOL-Library.List_Lexorder"
    "HOL-Library.Sublist"
    "HOL-Library.AList"
begin

section \<open>Python strings\<close>

text \<open>
  A Python \<open>str\<close> is a \<open>string\<close> whose characters are the code points U+0000 to
  U+00FF. The character classes below are Python's on that range: \<open>str.isspace\<close>
  (which \<open>str.strip()\<close> and the regular expression class \<open>\s\<close> both use), the class
  \<open>\w\<close> (letters, digits of every kind and the underscore), the cased characters, and
  the case mappings of \<open>str.lower\<close>, \<open>str.upper\<close> and \<open>str.title\<close>.
\<close>

definition ascii_lowercase :: string where
  "ascii_lowercase = ''abcdefghijklmnopqrstuvwxyz''"

definition ascii_uppercase :: string where
  "ascii_uppercase = ''ABCDEFGHIJKLMNOPQRSTUVWXYZ''"

definition digits :: string where
  "digits = ''0123456789''"

text \<open>
  The capital letters U+00C0 to U+00DE (without the multiplication sign U+00D7) and
  their small letters U+00E0 to U+00FE (without the division sign U+00F7), in the
  same order.
\<close>

definition latin1_uppercase :: string where
  "latin1_uppercase =
     [CHR 0xC0, CHR 0xC1, CHR 0xC2, CHR 0xC3, CHR 0xC4, CHR 0xC5, CHR 0xC6,
      CHR 0xC7, CHR 0xC8, CHR 0xC9, CHR 0xCA, CHR 0xCB, CHR 0xCC, CHR 0xCD,
      CHR 0xCE, CHR 0xCF, CHR 0xD0, CHR 0xD1, CHR 0xD2, CHR 0xD3, CHR 0xD4,
      CHR 0xD5, CHR 0xD6, CHR 0xD8, CHR 0xD9, CHR 0xDA, CHR 0xDB, CHR 0xDC,
      CHR 0xDD, CHR 0xDE]"

definition latin1_lowercase :: string where
  "latin1_lowercase =
     [CHR 0xE0, CHR 0xE1, CHR 0xE2, CHR 0xE3, CHR 0xE4, CHR 0xE5, CHR 0xE6,
      CHR 0xE7, CHR 0xE8, CHR 0xE9, CHR 0xEA, CHR 0xEB, CHR 0xEC, CHR 0xED,
      CHR 0xEE, CHR 0xEF, CHR 0xF0, CHR 0xF1, CHR 0xF2, CHR 0xF3, CHR 0xF4,
      CHR 0xF5, CHR 0xF6, CHR 0xF8, CHR 0xF9, CHR 0xFA, CHR 0xFB, CHR 0xFC,
      CHR 0xFD, CHR 0xFE]"

definition isspace :: "char \<Rightarrow> bool" where
  "isspace c = (c \<in> set [CHR 0x09, CHR 0x0A, CHR 0x0B, CHR 0x0C, CHR 0x0D,
                          CHR 0x1C, CHR 0x1D, CHR 0x1E, CHR 0x1F, CHR 0x20,
                          CHR 0x85, CHR 0xA0])"

text \<open>
  Beyond the letters with a case mapping, \<open>\w\<close> holds the ordinal indicators, the micro
  sign, the superscript digits, the fractions, the sharp s and the y with diaeresis.
\<close>

definition is_word_char :: "char \<Rightarrow> bool" where
  "is_word_char c =
     (c \<in> set (ascii_lowercase @ ascii_uppercase @ digits @ ''_'' @
               latin1_uppercase @ latin1_lowercase @
               [CHR 0xAA, CHR 0xB2, CHR 0xB3, CHR 0xB5, CHR 0xB9, CHR 0xBA,
                CHR 0xBC, CHR 0xBD, CHR 0xBE, CHR 0xDF, CHR 0xFF]))"

definition is_cased :: "char \<Rightarrow> bool" where
  "is_cased c =
     (c \<in> set (ascii_lowercase @ ascii_uppercase @ latin1_uppercase @ latin1_lowercase @
               [CHR 0xAA, CHR 0xB5, CHR 0xBA, CHR 0xDF, CHR 0xFF]))"

text \<open>
  The case mappings. The upper case forms of the micro sign (U+039C), the sharp s
  (\<open>SS\<close>) and the y with diaeresis (U+0178) are no characters of the range:
  \<open>upper_char\<close> leaves these three as they are. No such form is one of the five HTTP
  verbs, which is all the fetcher asks of \<open>upper\<close>.
\<close>

definition lower_char :: "char \<Rightarrow> char" where
  "lower_char c =
     (case map_of (zip (ascii_uppercase @ latin1_uppercase)
                       (ascii_lowercase @ latin1_lowercase)) c of
        Some d \<Rightarrow> d | None \<Rightarrow> c)"

definition upper_char :: "char \<Rightarrow> char" where
  "upper_char c =
     (case map_of (zip (ascii_lowercase @ latin1_lowercase)
                       (ascii_uppercase @ latin1_uppercase)) c of
        Some d \<Rightarrow> d | None \<Rightarrow> c)"

definition lower :: "string \<Rightarrow> string" where
  "lower s = map lower_char s"

definition upper :: "string \<Rightarrow> string" where
  "upper s = map upper_char s"

text \<open>\<open>s.strip()\<close>: leading and trailing whitespace removed.\<close>

definition strip :: "string \<Rightarrow> string" where
  "strip s = rev (dropWhile isspace (rev (dropWhile isspace s)))"

text \<open>\<open>s.lstrip()\<close> and \<open>s.rstrip()\<close>, the two halves of \<open>s.strip()\<close>.\<close>

definition lstrip :: "string \<Rightarrow> string" where
  "lstrip s = dropWhile isspace s"

definition rstrip :: "string \<Rightarrow> string" where
  "rstrip s = rev (dropWhile isspace (rev s))"

text \<open>\<open>sep.join(xs)\<close>.\<close>

fun join :: "string \<Rightarrow> string list \<Rightarrow> string" where
  "join sep [] = []"
| "join sep [x] = x"
| "join sep (x # y # ys) = x @ sep @ join sep (y # ys)"

text \<open>\<open>sub in s\<close> for strings: \<open>sub\<close> occurs in \<open>s\<close> as a contiguous run.\<close>

fun contains :: "string \<Rightarrow> string \<Rightarrow> bool" where
  "contains [] sub = (sub = [])"
| "contains (c # cs) sub = (prefix sub (c # cs) \<or> contains cs sub)"

text \<open>
  \<open>s.replace(old, new)\<close>: the occurrences of \<open>old\<close> are found from the left and do not
  overlap. The counter is the number of characters of the current occurrence still to
  be skipped. With an empty \<open>old\<close> Python puts \<open>new\<close> before every character and at
  the end.
\<close>

fun replace_from :: "string \<Rightarrow> string \<Rightarrow> nat \<Rightarrow> string \<Rightarrow> string" where
  "replace_from old new k [] = []"
| "replace_from old new (Suc k) (c # cs) = replace_from old new k cs"
| "replace_from old new 0 (c # cs) =
     (if prefix old (c # cs) then new @ replace_from old new (length old - 1) cs
      else c # replace_from old new 0 cs)"

definition replace :: "string \<Rightarrow> string \<Rightarrow> string \<Rightarrow> string" where
  "replace s old new =
     (if old = [] then new @ concat (map (\<lambda>c. c # new) s)
      else replace_from old new 0 s)"

text \<open>\<open>str(n)\<close> for a natural number, and the format \<open>{n:02d}\<close>.\<close>

fun str_of_nat :: "nat \<Rightarrow> string" where
  "str_of_nat n =
     (if n < 10 then [digits ! n] else str_of_nat (n div 10) @ [digits ! (n mod 10)])"

definition format_02d :: "nat \<Rightarrow> string" where
  "format_02d n = (if n < 10 then CHR ''0'' # str_of_nat n else str_of_nat n)"

text \<open>
  \<open>s.title()\<close>: a character that follows a cased character is lowered, any other
  character is raised to its title case, which is its upper case as \<open>upper_char\<close>
  gives it; a character without a case is its own lower and upper case.
\<close>

fun title_from :: "bool \<Rightarrow> string \<Rightarrow> string" where
  "title_from prev [] = []"
| "title_from prev (c # cs) =
     (if prev then lower_char c else upper_char c) # title_from (is_cased c) cs"

definition str_title :: "string \<Rightarrow> string" where
  "str_title s = title_from False s"

section \<open>Configuration and environment\<close>

text \<open>
  The dataclass \<open>FetcherConfig\<close>. The two toggles that share their names with methods
  of the fetcher carry the suffix \<open>_on\<close>. \<open>custom_headers\<close> only changes the headers of
  the HTTP session and is left out.
\<close>

text \<open>A Python \<open>float\<close>: a finite number, an infinity, or not a number.\<close>

datatype py_float = Finite real | Pos_Inf | Neg_Inf | NaN

record fetcher_config =
  base_urls :: "string list"
  output_dir :: string
  max_depth :: int
  delay_seconds :: py_float
  include_patterns :: "string list option"
  exclude_patterns :: "string list option"
  follow_external_links :: bool
  extract_code_examples_on :: bool
  extract_api_endpoints_on :: bool
  create_index :: bool
  use_playwright :: bool

text \<open>The truth value of an optional list: \<open>None\<close> and \<open>[]\<close> are both false.\<close>

fun truthy :: "'a list option \<Rightarrow> bool" where
  "truthy None = False"
| "truthy (Some xs) = (xs \<noteq> [])"

fun items :: "'a list option \<Rightarrow> 'a list" where
  "items None = []"
| "items (Some xs) = xs"

datatype re_flag = IGNORECASE | MULTILINE

text \<open>What \<open>re.findall\<close> returns for one match: a string, or a tuple of groups.\<close>

datatype re_match = Str string | Groups string "string list"

section \<open>Parsed pages\<close>

text \<open>
  A parsed page (a \<open>BeautifulSoup\<close> object) is what it answers to the queries the
  fetcher makes. A region of a page (a \<open>Tag\<close>) answers \<open>find_all\<close> for the block
  elements (in document order, each with its name and its \<open>get_text()\<close>), \<open>get_text()\<close>,
  \<open>find_all('table')\<close> and \<open>find_all(['pre', 'code'])\<close>. A heading \<open>h1\<close> .. \<open>h6\<close> is
  \<open>H n\<close> with the digit \<open>n\<close> that \<open>int(element.name[1])\<close> reads.
\<close>

datatype tag = H nat | P | Div | Pre | Table | Ul | Ol

record element =
  el_name :: tag
  el_text :: string

text \<open>
  A table: the texts of its \<open>th\<close> elements, and for each \<open>tr\<close> the texts of its
  \<open>td\<close> and \<open>th\<close> cells.
\<close>

record html_table =
  th_texts :: "string list"
  tr_cells :: "string list list"

record code_block =
  cb_class :: "string list"
  cb_text :: string

record region =
  find_all_blocks :: "element list"
  get_text :: string
  find_all_table :: "html_table list"
  find_all_code :: "code_block list"

text \<open>
  A page answers \<open>select_one(selector)\<close> (with the element's text for the title, with
  the element for the main content) and \<open>select(selector)\<close> with the \<open>href\<close> attribute
  of each element found.
\<close>

record soup =
  select_one_text :: "string \<Rightarrow> string option"
  select_one :: "string \<Rightarrow> region option"
  document :: region
  select_href :: "string \<Rightarrow> string option list"

text \<open>
  The libraries and the world the fetcher calls: \<open>urlparse(url).netloc\<close>, \<open>urljoin\<close>,
  \<open>re.search\<close> and \<open>re.findall\<close> (pattern, text, flags), the order in which
  \<open>list(set(xs))\<close> lists a set, whether Playwright is installed, the content of the
  page Playwright renders and the content of the response that \<open>session.get\<close> with
  \<open>raise_for_status\<close> returns (\<open>None\<close> when they raise), the page that
  \<open>BeautifulSoup(content, 'html.parser')\<close> makes of a content (\<open>None\<close> when the
  parser rejects it), the longest time \<open>time.sleep\<close> accepts on the platform, the
  clock as \<open>time.strftime\<close> formats it, and \<open>str(Path(dir) / name)\<close>. Patterns are
  taken to be valid, URLs to be parsable and the output directory to be writable.
\<close>

record env =
  urlparse_netloc :: "string \<Rightarrow> string"
  urljoin :: "string \<Rightarrow> string \<Rightarrow> string"
  re_search :: "string \<Rightarrow> string \<Rightarrow> re_flag list \<Rightarrow> bool"
  re_findall :: "string \<Rightarrow> string \<Rightarrow> re_flag list \<Rightarrow> re_match list"
  list_of_set :: "string list \<Rightarrow> string list"
  playwright_available :: bool
  playwright_content :: "string \<Rightarrow> string option"
  session_get :: "string \<Rightarrow> string option"
  beautiful_soup :: "string \<Rightarrow> soup option"
  sleep_limit :: real
  strftime_now :: string
  path_str :: "string \<Rightarrow> string \<Rightarrow> string"

section \<open>Extracted content\<close>

record doc_section =
  sec_level :: nat
  sec_title :: string
  sec_content :: "string list"

text \<open>
  An endpoint dictionary has the keys \<open>method\<close>, \<open>path\<close> and \<open>type = 'endpoint'\<close>, or
  the keys \<open>type = 'table_endpoint'\<close> and \<open>data\<close>.
\<close>

datatype endpoint = Endpoint string string | Table_Endpoint "string list"

record code_example =
  ce_language :: string
  ce_code :: string
  ce_length :: nat

record page_content =
  pc_url :: string
  pc_title :: string
  pc_sections :: "doc_section list"
  pc_api_endpoints :: "endpoint list"
  pc_code_examples :: "code_example list"
  pc_navigation_links :: "string list"

section \<open>The fetcher\<close>

text \<open>
  The fields of \<open>APIDocsFetcher\<close> that change, and the two effects on the world: the
  arguments of the calls of \<open>time.sleep\<close> in order, and the files written (path and
  content; writing a path again replaces its content).
\<close>

record fetcher =
  visited_urls :: "string set"
  failed_urls :: "string list"
  successful_pages :: "page_content list"
  slept :: "real list"
  files :: "(string \<times> string) list"

definition should_fetch_url :: "env \<Rightarrow> fetcher_config \<Rightarrow> string set \<Rightarrow> string \<Rightarrow> bool" where
  "should_fetch_url env config visited url =
     (if url \<in> visited then False
      else if \<not> follow_external_links config \<and>
              urlparse_netloc env url \<notin> set (map (urlparse_netloc env) (base_urls config))
        then False
      else if truthy (include_patterns config) \<and>
              \<not> list_ex (\<lambda>pattern. re_search env pattern url [IGNORECASE])
                   (items (include_patterns config))
        then False
      else if truthy (exclude_patterns config) \<and>
              list_ex (\<lambda>pattern. re_search env pattern url [IGNORECASE])
                (items (exclude_patterns config))
        then False
      else True)"

text \<open>
  \<open>time.sleep(secs)\<close> returns after \<open>secs\<close> seconds, or raises: on a negative
  number, on a number beyond the platform's limit, on an infinity and on \<open>nan\<close>.
\<close>

definition time_sleep :: "env \<Rightarrow> py_float \<Rightarrow> real option" where
  "time_sleep env secs =
     (case secs of
        Finite d \<Rightarrow> if d < 0 \<or> sleep_limit env < d then None else Some d
      | _ \<Rightarrow> None)"

text \<open>
  The part of \<open>fetch_page\<close> that uses \<open>requests\<close>: \<open>session.get\<close> and
  \<open>raise_for_status\<close>, then the URL is added to the visited set, then \<open>time.sleep\<close>,
  then the content is parsed. An exception at any of these steps ends in the handler
  that appends the URL to \<open>failed_urls\<close> and returns \<open>None\<close>.
\<close>

definition fetch_with_requests ::
    "env \<Rightarrow> fetcher_config \<Rightarrow> string \<Rightarrow> fetcher \<Rightarrow> soup option \<times> fetcher" where
  "fetch_with_requests env config url s =
     (case session_get env url of
        None \<Rightarrow> (None, s\<lparr>failed_urls := failed_urls s @ [url]\<rparr>)
      | Some content \<Rightarrow>
          (let s1 = s\<lparr>visited_urls := insert url (visited_urls s)\<rparr> in
           case time_sleep env (delay_seconds config) of
             None \<Rightarrow> (None, s1\<lparr>failed_urls := failed_urls s1 @ [url]\<rparr>)
           | Some d \<Rightarrow>
               (let s2 = s1\<lparr>slept := slept s1 @ [d]\<rparr> in
                case beautiful_soup env content of
                  None \<Rightarrow> (None, s2\<lparr>failed_urls := failed_urls s2 @ [url]\<rparr>)
                | Some page \<Rightarrow> (Some page, s2))))"

text \<open>
  \<open>fetch_page\<close>. With Playwright enabled and installed the page is rendered first,
  the URL is added to the visited set, then \<open>time.sleep\<close>, then the content is parsed;
  an exception at any of these steps falls back to \<open>requests\<close>, with the visited set
  and the sleep as they are by then.
\<close>

definition fetch_page ::
    "env \<Rightarrow> fetcher_config \<Rightarrow> string \<Rightarrow> fetcher \<Rightarrow> soup option \<times> fetcher" where
  "fetch_page env config url s =
     (if \<not> should_fetch_url env config (visited_urls s) url then (None, s)
      else if use_playwright config \<and> playwright_available env then
        (case playwright_content env url of
           None \<Rightarrow> fetch_with_requests env config url s
         | Some html_content \<Rightarrow>
             (let s1 = s\<lparr>visited_urls := insert url (visited_urls s)\<rparr> in
              case time_sleep env (delay_seconds config) of
                None \<Rightarrow> fetch_with_requests env config url s1
              | Some d \<Rightarrow>
                  (let s2 = s1\<lparr>slept := slept s1 @ [d]\<rparr> in
                   case beautiful_soup env html_content of
                     None \<Rightarrow> fetch_with_requests env config url s2
                   | Some page \<Rightarrow> (Some page, s2))))
      else fetch_with_requests env config url s)"

section \<open>Content extraction\<close>

definition title_selectors :: "string list" where
  \<open>title_selectors =
     [''h1'', ''title'', ''.page-title'', ''.doc-title'', ''.api-title'',
      ''[role="heading"][aria-level="1"]'']\<close>

fun first_title :: "soup \<Rightarrow> string list \<Rightarrow> string" where
  "first_title page [] = ''Untitled''"
| "first_title page (selector # rest) =
     (case select_one_text page selector of
        None \<Rightarrow> first_title page rest
      | Some text \<Rightarrow>
          (let title = strip text in
           if title \<noteq> [] \<and> length title < 200 then title else first_title page rest))"

definition extract_title :: "soup \<Rightarrow> string" where
  "extract_title page = first_title page title_selectors"

definition content_selectors :: "string list" where
  \<open>content_selectors =
     [''main'', ''[role="main"]'', ''.main-content'', ''.content'', ''.documentation'',
      ''.api-docs'', ''.doc-content'', ''article'', ''.markdown-body'', ''.rst-content'',
      ''body'']\<close>

fun first_content :: "soup \<Rightarrow> string list \<Rightarrow> region" where
  "first_content page [] = document page"
| "first_content page (selector # rest) =
     (case select_one page selector of
        None \<Rightarrow> first_content page rest
      | Some content \<Rightarrow> content)"

definition extract_main_content :: "soup \<Rightarrow> region" where
  "extract_main_content page = first_content page content_selectors"

text \<open>
  \<open>extract_sections\<close>: the loop over the block elements carries \<open>sections\<close> and
  \<open>current_section\<close>; \<open>flush\<close> is the test
  \<open>if current_section and current_section.get('content')\<close> with its append.
\<close>

definition flush :: "doc_section list \<Rightarrow> doc_section option \<Rightarrow> doc_section list" where
  "flush sections current_section =
     (case current_section of
        None \<Rightarrow> sections
      | Some cur \<Rightarrow> if sec_content cur \<noteq> [] then sections @ [cur] else sections)"

fun sections_loop ::
    "element list \<Rightarrow> doc_section list \<Rightarrow> doc_section option
      \<Rightarrow> doc_section list \<times> doc_section option" where
  "sections_loop [] sections current_section = (sections, current_section)"
| "sections_loop (element # rest) sections current_section =
     (case el_name element of
        H n \<Rightarrow>
          sections_loop rest (flush sections current_section)
            (Some \<lparr>sec_level = n, sec_title = strip (el_text element), sec_content = []\<rparr>)
      | _ \<Rightarrow>
          (case current_section of
             None \<Rightarrow> sections_loop rest sections None
           | Some cur \<Rightarrow>
               (let text = strip (el_text element) in
                if text \<noteq> [] \<and> length text > 10
                then sections_loop rest sections
                       (Some (cur\<lparr>sec_content := sec_content cur @ [text]\<rparr>))
                else sections_loop rest sections current_section)))"

definition extract_sections :: "region \<Rightarrow> doc_section list" where
  "extract_sections content =
     (case sections_loop (find_all_blocks content) [] None of
        (sections, current_section) \<Rightarrow> flush sections current_section)"

text \<open>
  \<open>extract_api_endpoints\<close>. The four patterns of \<open>endpoint_patterns\<close>, written with
  \<open>bs\<close> for the backslash.
\<close>

definition bs :: string where
  "bs = [CHR 0x5C]"

definition endpoint_patterns :: "string list" where
  "endpoint_patterns =
     [''(GET|POST|PUT|DELETE|PATCH)'' @ bs @ ''s+(/[^'' @ bs @ ''s'' @ bs @ ''n'' @ bs @ '')]+)'',
      ''(/api/[^'' @ bs @ ''s'' @ bs @ ''n'' @ bs @ '')'' @ bs @ ''>]+)'',
      ''(https?://[^/'' @ bs @ ''s]+/api/[^'' @ bs @ ''s'' @ bs @ ''n'' @ bs @ '')'' @ bs @ ''>]+)'',
      ''('' @ bs @ ''{[^}]*'' @ bs @ ''}[^'' @ bs @ ''s]*)'']"

definition http_methods :: "string list" where
  "http_methods = [''GET'', ''POST'', ''PUT'', ''DELETE'', ''PATCH'']"

text \<open>
  A tuple that \<open>re.findall\<close> returns has at least one group: \<open>Groups g gs\<close> is the
  tuple \<open>(g, gs...)\<close>, so \<open>len(match) >= 2\<close> says that \<open>gs\<close> is not empty.
\<close>

fun endpoint_of_match :: "re_match \<Rightarrow> endpoint" where
  "endpoint_of_match (Groups g0 (g1 # gs)) =
     Endpoint (if upper g0 \<in> set http_methods then upper g0 else ''GET'') g1"
| "endpoint_of_match (Groups g0 []) = Endpoint ''GET'' g0"
| "endpoint_of_match (Str m) = Endpoint ''GET'' m"

definition pattern_endpoints :: "env \<Rightarrow> string \<Rightarrow> endpoint list" where
  "pattern_endpoints env text_content =
     concat (map (\<lambda>pattern.
         map endpoint_of_match (re_findall env pattern text_content [IGNORECASE, MULTILINE]))
       endpoint_patterns)"

definition table_keywords :: "string list" where
  "table_keywords = [''endpoint'', ''method'', ''path'', ''url'']"

definition table_endpoints :: "html_table \<Rightarrow> endpoint list" where
  "table_endpoints table =
     (let headers = map (\<lambda>th. lower (strip th)) (th_texts table) in
      if list_ex (\<lambda>keyword. contains (join '' '' headers) keyword) table_keywords
      then map Table_Endpoint
             (filter (\<lambda>cells. length cells \<ge> 2) (map (map strip) (drop 1 (tr_cells table))))
      else [])"

text \<open>
  The key of the duplicate removal,
  \<open>f"{endpoint.get('method', 'GET')}:{endpoint.get('path', '')}"\<close>: a table endpoint
  has neither key.
\<close>

fun get_method :: "endpoint \<Rightarrow> string" where
  "get_method (Endpoint method path) = method"
| "get_method (Table_Endpoint data) = ''GET''"

fun get_path :: "endpoint \<Rightarrow> string" where
  "get_path (Endpoint method path) = path"
| "get_path (Table_Endpoint data) = []"

definition endpoint_key :: "endpoint \<Rightarrow> string" where
  "endpoint_key endpoint = get_method endpoint @ '':'' @ get_path endpoint"

fun unique_loop :: "endpoint list \<Rightarrow> endpoint list \<Rightarrow> string set \<Rightarrow> endpoint list" where
  "unique_loop [] unique_endpoints seen = unique_endpoints"
| "unique_loop (endpoint # rest) unique_endpoints seen =
     (if endpoint_key endpoint \<notin> seen
      then unique_loop rest (unique_endpoints @ [endpoint]) (insert (endpoint_key endpoint) seen)
      else unique_loop rest unique_endpoints seen)"

definition extract_api_endpoints :: "env \<Rightarrow> fetcher_config \<Rightarrow> region \<Rightarrow> endpoint list" where
  "extract_api_endpoints env config content =
     (if \<not> extract_api_endpoints_on config then []
      else unique_loop
             (pattern_endpoints env (get_text content) @
              concat (map table_endpoints (find_all_table content)))
             [] {})"

text \<open>\<open>extract_code_examples\<close>.\<close>

definition language_hints :: "string list" where
  "language_hints = [''python'', ''javascript'', ''bash'', ''curl'', ''json'', ''xml'']"

fun class_language :: "string list \<Rightarrow> string" where
  "class_language [] = ''text''"
| "class_language (cls # rest) =
     (if list_ex (\<lambda>lang. contains (lower cls) lang) language_hints then lower cls
      else class_language rest)"

definition content_language :: "env \<Rightarrow> string \<Rightarrow> string" where
  "content_language env code_text =
     (if re_search env ''^(curl|wget)'' (strip code_text) [MULTILINE] then ''bash''
      else if re_search env ''^(import|def|class)'' (strip code_text) [MULTILINE] then ''python''
      else if re_search env (''^('' @ bs @ ''{|'' @ bs @ ''[)'') (strip code_text) [] then ''json''
      else if re_search env ''<[^>]+>'' code_text [] then ''xml''
      else ''text'')"

definition code_example_of :: "env \<Rightarrow> code_block \<Rightarrow> code_example option" where
  "code_example_of env block =
     (let code_text = strip (cb_text block) in
      if length code_text < 20 then None
      else
        (let language = class_language (cb_class block) in
         Some \<lparr>ce_language =
                 (if language = ''text'' then content_language env code_text else language),
               ce_code = code_text,
               ce_length = length code_text\<rparr>))"

definition extract_code_examples :: "env \<Rightarrow> fetcher_config \<Rightarrow> region \<Rightarrow> code_example list" where
  "extract_code_examples env config content =
     (if \<not> extract_code_examples_on config then []
      else List.map_filter (code_example_of env) (find_all_code content))"

text \<open>
  \<open>find_navigation_links\<close>: \<open>if href\<close> drops a missing and an empty attribute; the
  visited set does not change during the loop.
\<close>

definition nav_selectors :: "string list" where
  \<open>nav_selectors =
     [''nav a'', ''.navigation a'', ''.nav a'', ''.sidebar a'', ''.toc a'', ''.menu a'',
      ''ul.nav a'', ''[role="navigation"] a'']\<close>

fun href_truthy :: "string option \<Rightarrow> string option" where
  "href_truthy None = None"
| "href_truthy (Some href) = (if href \<noteq> [] then Some href else None)"

definition find_navigation_links ::
    "env \<Rightarrow> fetcher_config \<Rightarrow> string set \<Rightarrow> soup \<Rightarrow> string \<Rightarrow> string list" where
  "find_navigation_links env config visited page base_url =
     list_of_set env
       (filter (should_fetch_url env config visited)
          (map (urljoin env base_url)
             (concat (map (\<lambda>selector. List.map_filter href_truthy (select_href page selector))
                        nav_selectors))))"

text \<open>
  \<open>extract_page_content\<close>: \<open>if not soup: return {}\<close>. A \<open>BeautifulSoup\<close> object is
  always true, so only \<open>None\<close> gives the empty dictionary, which is \<open>None\<close> here.
\<close>

definition extract_page_content ::
    "env \<Rightarrow> fetcher_config \<Rightarrow> string set \<Rightarrow> soup option \<Rightarrow> string \<Rightarrow> page_content option" where
  "extract_page_content env config visited page_opt url =
     (case page_opt of
        None \<Rightarrow> None
      | Some page \<Rightarrow>
          (let main_content = extract_main_content page in
           Some \<lparr>pc_url = url,
                 pc_title = extract_title page,
                 pc_sections = extract_sections main_content,
                 pc_api_endpoints = extract_api_endpoints env config main_content,
                 pc_code_examples = extract_code_examples env config main_content,
                 pc_navigation_links = find_navigation_links env config visited page url\<rparr>))"

section \<open>Markdown\<close>

definition section_lines :: "doc_section \<Rightarrow> string list" where
  "section_lines sec =
     [replicate (min (sec_level sec + 1) 6) (CHR ''#'') @ '' '' @ sec_title sec, ''''] @
     concat (map (\<lambda>content_item. [content_item, '''']) (take 3 (sec_content sec)))"

fun endpoint_line :: "endpoint \<Rightarrow> string" where
  "endpoint_line (Table_Endpoint data) = ''- **Table Data:** '' @ join '' | '' data"
| "endpoint_line (Endpoint method path) = ''- **'' @ method @ ''** `'' @ path @ ''`''"

fun example_lines :: "nat \<times> code_example \<Rightarrow> string list" where
  "example_lines (i, example) =
     (let lang = ce_language example;
          code = (if length (ce_code example) > 1000
                  then take 1000 (ce_code example) @ ''\<newline>... (truncated)''
                  else ce_code example)
      in [''### Example '' @ str_of_nat (i + 1) @ '' ('' @ lang @ '')'', '''',
          ''```'' @ lang, code, ''```'', ''''])"

text \<open>
  \<open>convert_to_markdown\<close>; \<open>if api_name\<close> is false for \<open>None\<close> and for the empty
  string, so the optional name is a string.
\<close>

definition convert_to_markdown :: "page_content \<Rightarrow> string \<Rightarrow> string" where
  "convert_to_markdown content api_name =
     join ''\<newline>''
       ([''# '' @ (if api_name \<noteq> [] then api_name @ '' - '' @ pc_title content
                   else pc_title content),
         '''',
         ''**Source:** '' @ pc_url content,
         ''''] @
        concat (map section_lines (pc_sections content)) @
        (if pc_api_endpoints content \<noteq> []
         then [''## API Endpoints'', ''''] @
              map endpoint_line (take 10 (pc_api_endpoints content)) @ ['''']
         else []) @
        (if pc_code_examples content \<noteq> []
         then [''## Code Examples'', ''''] @
              concat (map example_lines (enumerate 0 (take 5 (pc_code_examples content))))
         else []))"

section \<open>The crawl\<close>

text \<open>The name taken from the base URL, \<open>netloc.replace('www.', '').replace('.', '_')\<close>.\<close>

definition api_name_of :: "env \<Rightarrow> string \<Rightarrow> string" where
  "api_name_of env base_url =
     replace (replace (urlparse_netloc env base_url) ''www.'' '''') ''.'' ''_''"

text \<open>
  \<open>re.sub(r'[-\s]+', '-', s)\<close>: every maximal run of hyphens and whitespace becomes one
  hyphen. The flag says that the previous character was in a run.
\<close>

fun sub_runs :: "bool \<Rightarrow> string \<Rightarrow> string" where
  "sub_runs in_run [] = []"
| "sub_runs in_run (c # cs) =
     (if c = CHR ''-'' \<or> isspace c
      then (if in_run then sub_runs True cs else CHR ''-'' # sub_runs True cs)
      else c # sub_runs False cs)"

text \<open>
  \<open>safe_title\<close>: \<open>re.sub(r'[^\w\s-]', '', title).strip()\<close>, then the runs.
\<close>

definition safe_title :: "string \<Rightarrow> string" where
  "safe_title title =
     sub_runs False
       (strip (filter (\<lambda>c. is_word_char c \<or> isspace c \<or> c = CHR ''-'') title))"

definition filename_of :: "string \<Rightarrow> nat \<Rightarrow> string \<Rightarrow> string" where
  "filename_of api_name processed_count title =
     api_name @ ''_'' @ format_02d processed_count @ ''_'' @ safe_title title @ ''.md''"

text \<open>The condition of the \<open>while\<close> loop.\<close>

definition loop_guard :: "string list \<Rightarrow> nat \<Rightarrow> bool" where
  "loop_guard pages_to_process processed_count =
     (pages_to_process \<noteq> [] \<and> processed_count < 20)"

text \<open>The links added to \<open>pages_to_process\<close> after a page was saved.\<close>

definition add_links ::
    "fetcher_config \<Rightarrow> nat \<Rightarrow> string list \<Rightarrow> string set \<Rightarrow> string list \<Rightarrow> string list" where
  "add_links config processed_count navigation_links visited pages_to_process =
     (if int processed_count < max_depth config
      then fold (\<lambda>link pages. if link \<notin> set pages \<and> link \<notin> visited
                                then pages @ [link] else pages)
             (take 5 navigation_links) pages_to_process
      else pages_to_process)"

text \<open>
  The page is appended to \<open>successful_pages\<close>, the markdown file is written and
  \<open>created_files\<close> (file name and path) is updated.
\<close>

definition save_page ::
    "env \<Rightarrow> fetcher_config \<Rightarrow> string \<Rightarrow> nat \<Rightarrow> page_content
      \<Rightarrow> (string \<times> string) list \<times> fetcher \<Rightarrow> (string \<times> string) list \<times> fetcher" where
  "save_page env config api_name processed_count content st =
     (case st of (created_files, s) \<Rightarrow>
        (let filename = filename_of api_name processed_count (pc_title content);
             file_path = path_str env (output_dir config) filename
         in (AList.update filename file_path created_files,
             s\<lparr>successful_pages := successful_pages s @ [content],
               files := AList.update file_path (convert_to_markdown content api_name)
                          (files s)\<rparr>)))"

text \<open>The \<open>while\<close> loop of \<open>crawl_documentation\<close> for one base URL.\<close>

function crawl_loop ::
    "env \<Rightarrow> fetcher_config \<Rightarrow> string \<Rightarrow> string list \<Rightarrow> nat
      \<Rightarrow> (string \<times> string) list \<times> fetcher \<Rightarrow> (string \<times> string) list \<times> fetcher" where
  "crawl_loop env config api_name pages_to_process processed_count st =
     (if loop_guard pages_to_process processed_count then
        (let url = hd pages_to_process; rest = tl pages_to_process in
         if url \<in> visited_urls (snd st)
         then crawl_loop env config api_name rest processed_count st
         else
           (case fetch_page env config url (snd st) of
              (None, s1) \<Rightarrow> crawl_loop env config api_name rest processed_count (fst st, s1)
            | (Some page, s1) \<Rightarrow>
                (case extract_page_content env config (visited_urls s1) (Some page) url of
                   None \<Rightarrow> crawl_loop env config api_name rest processed_count (fst st, s1)
                 | Some content \<Rightarrow>
                     crawl_loop env config api_name
                       (add_links config processed_count (pc_navigation_links content)
                          (visited_urls s1) rest)
                       (Suc processed_count)
                       (save_page env config api_name processed_count content (fst st, s1)))))
      else st)"
  by pat_completeness auto
termination
  by (relation "inv_image (less_than <*lex*> less_than)
        (\<lambda>(env, config, api_name, pages_to_process, processed_count, st).
           (20 - processed_count, length pages_to_process))")
     (auto simp: loop_guard_def)

declare crawl_loop.simps [simp del]

section \<open>The index\<close>

text \<open>The line of the index for one file, with the label made from the file name.\<close>

definition index_entry :: "string \<Rightarrow> string" where
  "index_entry filename =
     ''- ['' @ str_title (replace (replace filename ''.md'' '''') ''_'' '' '') @
     ''](./'' @ filename @ '')''"

text \<open>
  The lines of the index that \<open>create_index_file\<close> writes; \<open>sorted\<close> orders the keys
  of \<open>created_files\<close> as strings.
\<close>

definition index_content ::
    "env \<Rightarrow> fetcher_config \<Rightarrow> (string \<times> string) list \<Rightarrow> fetcher \<Rightarrow> string list" where
  "index_content env config created_files s =
     [''# API Documentation Index'', '''',
      ''Generated on '' @ strftime_now env, '''',
      ''**Source URLs:**''] @
     map (\<lambda>url. ''- '' @ url) (base_urls config) @
     ['''', ''## Documentation Files'', ''''] @
     map index_entry (sort (map fst created_files)) @
     ['''', ''## Summary'', '''',
      ''- Total files: '' @ str_of_nat (length created_files),
      ''- Successfully processed: '' @ str_of_nat (length (successful_pages s)),
      ''- Failed URLs: '' @ str_of_nat (length (failed_urls s)),
      ''''] @
     (if failed_urls s \<noteq> []
      then [''### Failed URLs:'', ''''] @ map (\<lambda>url. ''- '' @ url) (failed_urls s)
      else [])"

definition create_index_file ::
    "env \<Rightarrow> fetcher_config \<Rightarrow> (string \<times> string) list \<Rightarrow> fetcher \<Rightarrow> fetcher" where
  "create_index_file env config created_files s =
     s\<lparr>files := AList.update (path_str env (output_dir config) ''README.md'')
                  (join ''\<newline>'' (index_content env config created_files s)) (files s)\<rparr>"

definition crawl_documentation ::
    "env \<Rightarrow> fetcher_config \<Rightarrow> fetcher \<Rightarrow> (string \<times> string) list \<times> fetcher" where
  "crawl_documentation env config s =
     (case fold (\<lambda>base_url st.
                   crawl_loop env config (api_name_of env base_url) [base_url] 0 st)
             (base_urls config) ([], s) of
        (created_files, s1) \<Rightarrow>
          (created_files,
           if create_index config then create_index_file env config created_files s1 else s1))"

section \<open>The specification's words\<close>


text \<open>
  The loop condition as the specification describes it, with a configured limit of
  pages per base URL.
\<close>

definition spec_loop_guard :: "nat \<Rightarrow> string list \<Rightarrow> nat \<Rightarrow> bool" where
  "spec_loop_guard max_pages_per_site frontier processed_count =
     (frontier \<noteq> [] \<and> processed_count < max_pages_per_site)"

text \<open>
  The tasks the specification enqueues after a page at \<open>depth\<close>: the first 5 of its
  navigation links, each at \<open>depth + 1\<close>.
\<close>

definition spec_enqueue :: "nat \<Rightarrow> string list \<Rightarrow> (string \<times> nat) list" where
  "spec_enqueue depth navigation_links =
     map (\<lambda>link. (link, depth + 1)) (take 5 navigation_links)"

text \<open>The elements of a list, each once, at its first occurrence.\<close>

fun first_occurrences :: "'a list \<Rightarrow> 'a list" where
  "first_occurrences [] = []"
| "first_occurrences (x # xs) = x # first_occurrences (filter (\<lambda>y. y \<noteq> x) xs)"

text \<open>
  The sections as the specification describes them: every heading opens a section
  whose content blocks are the texts longer than 10 characters of the blocks up to the
  next heading; a section without content blocks is dropped, and so is every block
  before the first heading.
\<close>

definition is_heading :: "element \<Rightarrow> bool" where
  "is_heading element = (case el_name element of H n \<Rightarrow> True | _ \<Rightarrow> False)"

definition heading_level :: "element \<Rightarrow> nat" where
  "heading_level element = (case el_name element of H n \<Rightarrow> n | _ \<Rightarrow> 0)"

definition content_blocks :: "element list \<Rightarrow> string list" where
  "content_blocks body =
     filter (\<lambda>text. length text > 10) (map (\<lambda>element. strip (el_text element)) body)"

fun spec_sections :: "element list \<Rightarrow> doc_section list" where
  "spec_sections [] = []"
| "spec_sections (element # rest) =
     (if is_heading element
      then (let blocks = content_blocks (takeWhile (\<lambda>e. \<not> is_heading e) rest) in
            if blocks \<noteq> []
            then \<lparr>sec_level = heading_level element, sec_title = strip (el_text element),
                  sec_content = blocks\<rparr> # spec_sections rest
            else spec_sections rest)
      else spec_sections rest)"

section \<open>A small world for concrete runs\<close>

text \<open>
  The host of a URL of the form \<open>scheme://host/path\<close>, hrefs that are absolute URLs,
  patterns that never match, \<open>list(set(xs))\<close> in the order of first occurrence, no
  Playwright, and a web given as a function from URLs to pages: the content served at
  a URL is written as the URL itself, and the parser makes of it the page the web has
  there. \<open>time.sleep\<close> accepts up to \<open>2 ^ 63\<close> nanoseconds.
\<close>

definition host_of :: "string \<Rightarrow> string" where
  "host_of url =
     takeWhile (\<lambda>c. c \<notin> set ''/?#'') (drop 2 (dropWhile (\<lambda>c. c \<noteq> CHR ''/'') url))"

definition world :: "(string \<Rightarrow> soup option) \<Rightarrow> string \<Rightarrow> env" where
  "world web now =
     \<lparr>urlparse_netloc = host_of,
      urljoin = (\<lambda>base href. href),
      re_search = (\<lambda>pattern text flags. False),
      re_findall = (\<lambda>pattern text flags. []),
      list_of_set = remdups,
      playwright_available = False,
      playwright_content = (\<lambda>url. None),
      session_get = (\<lambda>url. case web url of None \<Rightarrow> None | Some page \<Rightarrow> Some url),
      beautiful_soup = web,
      sleep_limit = 9223372036,
      strftime_now = now,
      path_str = (\<lambda>dir name. dir @ ''/'' @ name)\<rparr>"

text \<open>The same world with a parser that rejects every content.\<close>

definition broken_world :: "(string \<Rightarrow> soup option) \<Rightarrow> string \<Rightarrow> env" where
  "broken_world web now = (world web now)\<lparr>beautiful_soup := (\<lambda>content. None)\<rparr>"

definition empty_region :: region where
  "empty_region =
     \<lparr>find_all_blocks = [], get_text = [], find_all_table = [], find_all_code = []\<rparr>"

definition empty_page :: soup where
  "empty_page =
     \<lparr>select_one_text = (\<lambda>selector. None), select_one = (\<lambda>selector. None),
      document = empty_region, select_href = (\<lambda>selector. [])\<rparr>"

text \<open>A page with an \<open>h1\<close> title and links inside a \<open>nav\<close> element.\<close>

definition nav_page :: "string \<Rightarrow> string list \<Rightarrow> soup" where
  "nav_page heading links =
     \<lparr>select_one_text = (\<lambda>selector. if selector = ''h1'' then Some heading else None),
      select_one = (\<lambda>selector. None),
      document = empty_region,
      select_href = (\<lambda>selector. if selector = ''nav a'' then map Some links else [])\<rparr>"

text \<open>The configuration with the defaults of \<open>FetcherConfig\<close> and a delay of one second.\<close>

definition default_config :: "string list \<Rightarrow> fetcher_config" where
  "default_config urls =
     \<lparr>base_urls = urls, output_dir = ''api_docs'', max_depth = 2,
      delay_seconds = Finite 1,
      include_patterns = None, exclude_patterns = None, follow_external_links = False,
      extract_code_examples_on = True, extract_api_endpoints_on = True,
      create_index = True, use_playwright = False\<rparr>"

text \<open>The fetcher as \<open>__init__\<close> leaves it, nothing slept and nothing written.\<close>

definition new_fetcher :: fetcher where
  "new_fetcher =
     \<lparr>visited_urls = {}, failed_urls = [], successful_pages = [], slept = [], files = []\<rparr>"

text \<open>
  What an open section still contributes when the elements \<open>rest\<close> are to come: its
  content so far and the content blocks up to the next heading.
\<close>

definition pending :: "doc_section option \<Rightarrow> element list \<Rightarrow> doc_section list" where
  "pending current_section rest =
     (case current_section of
        None \<Rightarrow> []
      | Some cur \<Rightarrow>
          (let blocks = sec_content cur @
                        content_blocks (takeWhile (\<lambda>e. \<not> is_heading e) rest) in
           if blocks \<noteq> [] then [cur\<lparr>sec_content := blocks\<rparr>] else []))"

section \<open>Concrete runs\<close>


text \<open>
  A site whose start page links to a page that is gone and to a page \<open>b\<close>, which links
  to the page that is gone as well.
\<close>

definition gone_web :: "string \<Rightarrow> soup option" where
  "gone_web url =
     (if url = ''http://a.com/''
      then Some (nav_page ''Home'' [''http://a.com/gone'', ''http://a.com/b''])
      else if url = ''http://a.com/b'' then Some (nav_page ''Page B'' [''http://a.com/gone''])
      else None)"

text \<open>A site whose only page is an empty document.\<close>

definition empty_web :: "string \<Rightarrow> soup option" where
  "empty_web url = (if url = ''http://a.com/'' then Some empty_page else None)"

text \<open>Two pages on one host, both titled \<open>Home\<close>.\<close>

definition twin_web :: "string \<Rightarrow> soup option" where
  "twin_web url =
     (if url = ''http://a.com/docs'' \<or> url = ''http://a.com/api''
      then Some (nav_page ''Home'' []) else None)"

text \<open>
  A region with one table, whose header names a URL column and whose two rows describe
  two different endpoints; no pattern of \<open>endpoint_patterns\<close> matches its text.
\<close>

definition table_region :: region where
  "table_region =
     \<lparr>find_all_blocks = [],
      get_text = ''NameURLusersthe users listordersthe orders list'',
      find_all_table =
        [\<lparr>th_texts = [''Name'', ''URL''],
          tr_cells = [[''Name'', ''URL''], [''users'', ''the users list''],
                      [''orders'', ''the orders list'']]\<rparr>],
      find_all_code = []\<rparr>"

section \<open>The URL filter\<close>




section \<open>Sections\<close>

lemma sections_loop_heading:
  assumes "el_name element = H n"
  shows "sections_loop (element # rest) sections current_section =
         sections_loop rest (flush sections current_section)
           (Some \<lparr>sec_level = n, sec_title = strip (el_text element), sec_content = []\<rparr>)"
  using assms by simp

lemma sections_loop_block:
  assumes "\<not> is_heading element"
  shows "sections_loop (element # rest) sections current_section =
         (case current_section of
            None \<Rightarrow> sections_loop rest sections None
          | Some cur \<Rightarrow>
              if length (strip (el_text element)) > 10
              then sections_loop rest sections
                     (Some (cur\<lparr>sec_content := sec_content cur @ [strip (el_text element)]\<rparr>))
              else sections_loop rest sections current_section)"
  using assms
  by (cases "el_name element") (auto simp: is_heading_def Let_def split: option.splits)

text \<open>
  The loop, started anywhere: what it returns, flushed, is what was already appended,
  then what the open section becomes, then the sections of the remaining elements.
\<close>

lemma sections_loop_spec:
  "(case sections_loop elements sections current_section of
      (sections', current') \<Rightarrow> flush sections' current') =
   sections @ pending current_section elements @ spec_sections elements"
proof (induction elements arbitrary: sections current_section)
  case Nil
  then show ?case
    by (simp add: flush_def pending_def content_blocks_def split: option.splits)
next
  case (Cons element rest)
  show ?case
  proof (cases "is_heading element")
    case True
    then obtain n where n: "el_name element = H n"
      by (auto simp: is_heading_def split: tag.splits)
    show ?thesis
      unfolding sections_loop_heading [OF n]
      using Cons.IH [of "flush sections current_section"
          "Some \<lparr>sec_level = n, sec_title = strip (el_text element), sec_content = []\<rparr>"] True
      by (simp add: n flush_def pending_def content_blocks_def heading_level_def Let_def
          split: option.splits)
  next
    case False
    show ?thesis
    proof (cases current_section)
      case None
      with False Cons.IH [of sections None] show ?thesis
        unfolding sections_loop_block [OF False] by (simp add: pending_def)
    next
      case (Some cur)
      show ?thesis
      proof (cases "length (strip (el_text element)) > 10")
        case True
        from False True Some
          Cons.IH [of sections
            "Some (cur\<lparr>sec_content := sec_content cur @ [strip (el_text element)]\<rparr>)"]
        show ?thesis
          unfolding sections_loop_block [OF False]
          by (simp add: pending_def content_blocks_def Let_def)
      next
        case short: False
        from False short Some Cons.IH [of sections "Some cur"]
        show ?thesis
          unfolding sections_loop_block [OF False]
          by (simp add: pending_def content_blocks_def Let_def)
      qed
    qed
  qed
qed

text \<open>
  Claim C6. \<open>extract_sections\<close> returns the sections the specification describes: in
  document order, one section for every heading that is followed, before the next
  heading, by at least one block whose stripped text is longer than 10 characters,
  with exactly those texts as its content blocks. So a heading directly followed by
  another heading gives no section, the last heading's section is flushed at the end of
  the scan when it has content, and the blocks before the first heading belong to no
  section.
\<close>

theorem extract_sections_spec:
  "extract_sections content = spec_sections (find_all_blocks content)"
  using sections_loop_spec [of "find_all_blocks content" "[]" None]
  by (simp add: extract_sections_def pending_def)

section \<open>Fetching\<close>



lemma fetch_with_requests_visited:
  "visited_urls (snd (fetch_with_requests env config url s)) =
     (if session_get env url = None then visited_urls s else insert url (visited_urls s))"
  by (auto simp: fetch_with_requests_def Let_def split: option.splits)

lemma fetch_with_requests_failed:
  "fetch_with_requests env config url s = (None, s1) \<Longrightarrow>
   failed_urls s1 = failed_urls s @ [url]"
  by (auto simp: fetch_with_requests_def Let_def split: option.splits)

lemma fetch_with_requests_pages:
  "successful_pages (snd (fetch_with_requests env config url s)) = successful_pages s \<and>
   files (snd (fetch_with_requests env config url s)) = files s"
  by (auto simp: fetch_with_requests_def Let_def split: option.splits)

lemma fetch_page_pages:
  "successful_pages (snd (fetch_page env config url s)) = successful_pages s \<and>
   files (snd (fetch_page env config url s)) = files s"
  by (auto simp: fetch_page_def Let_def fetch_with_requests_pages split: option.splits)

lemma fetch_page_failed:
  "should_fetch_url env config (visited_urls s) url \<Longrightarrow>
   fetch_page env config url s = (None, s1) \<Longrightarrow>
   failed_urls s1 = failed_urls s @ [url]"
  by (auto simp: fetch_page_def Let_def split: option.splits if_splits
      dest!: fetch_with_requests_failed)

lemma fetch_page_visited:
  "visited_urls (snd (fetch_page env config url s)) =
     (if should_fetch_url env config (visited_urls s) url \<and>
         (session_get env url \<noteq> None \<or>
          use_playwright config \<and> playwright_available env \<and>
          playwright_content env url \<noteq> None)
      then insert url (visited_urls s) else visited_urls s)"
  by (auto simp: fetch_page_def Let_def fetch_with_requests_visited split: option.splits)


lemma fetch_page_no_sleep:
  "time_sleep env (delay_seconds config) = None \<Longrightarrow>
   slept (snd (fetch_page env config url s)) = slept s \<and> fst (fetch_page env config url s) = None"
  by (auto simp: fetch_page_def fetch_with_requests_def Let_def split: option.splits)


lemma fetch_page_request_fails:
  assumes "session_get env url = None"
    and "\<not> (use_playwright config \<and> playwright_available env) \<or> playwright_content env url = None"
  shows "slept (snd (fetch_page env config url s)) = slept s \<and>
         visited_urls (snd (fetch_page env config url s)) = visited_urls s \<and>
         fst (fetch_page env config url s) = None"
  using assms by (auto simp: fetch_page_def fetch_with_requests_def)





text \<open>
  Claim C9. The claim says that a fetch that fails leaves the visited set unchanged.
  The URL is added to the visited set as soon as the response has arrived, before the
  sleep and before the content is parsed: a fetch that fails in the parser returns no
  page and records the URL in \<open>failed_urls\<close>, and the URL is visited.
\<close>

theorem failed_fetch_can_be_visited:
  "fst (fetch_page (broken_world twin_web ''2024-01-01 00:00:00'')
      (default_config [''http://a.com/docs'']) ''http://a.com/docs'' new_fetcher) = None \<and>
   failed_urls (snd (fetch_page (broken_world twin_web ''2024-01-01 00:00:00'')
      (default_config [''http://a.com/docs'']) ''http://a.com/docs'' new_fetcher)) = [''http://a.com/docs''] \<and>
   visited_urls new_fetcher = {} \<and>
   visited_urls (snd (fetch_page (broken_world twin_web ''2024-01-01 00:00:00'')
      (default_config [''http://a.com/docs'']) ''http://a.com/docs'' new_fetcher)) = {''http://a.com/docs''}"
  by (simp add: fetch_page_def fetch_with_requests_def time_sleep_def should_fetch_url_def
      world_def broken_world_def default_config_def new_fetcher_def host_of_def gone_web_def
      twin_web_def)

text \<open>
  Claim C9, as amended: \<open>fetch_page\<close> adds its URL to the visited set exactly when the
  URL passes the filter and a retrieval succeeds (the response arrives, or Playwright
  delivers the rendered page), and changes the visited set in no other way. So a fetch
  that fails because the request fails (and no page was rendered) leaves the visited
  set unchanged, while a fetch that fails after the retrieval, in \<open>time.sleep\<close> or in
  the parser, records the URL in \<open>failed_urls\<close> and leaves it visited. A URL whose
  request keeps failing stays eligible: on the site \<open>gone_web\<close> the missing page is
  linked from the start page and from page \<open>b\<close>, it is fetched on both encounters, and
  \<open>failed_urls\<close> holds it twice.
\<close>

theorem failed_request_keeps_visited:
  "visited_urls (snd (fetch_page env config url s)) =
     (if should_fetch_url env config (visited_urls s) url \<and>
         (session_get env url \<noteq> None \<or>
          use_playwright config \<and> playwright_available env \<and> playwright_content env url \<noteq> None)
      then insert url (visited_urls s) else visited_urls s) \<and>
   (session_get env url = None \<and>
    (\<not> (use_playwright config \<and> playwright_available env) \<or> playwright_content env url = None) \<longrightarrow>
      fst (fetch_page env config url s) = None \<and>
      visited_urls (snd (fetch_page env config url s)) = visited_urls s) \<and>
   (should_fetch_url env config (visited_urls s) url \<and> \<not> (use_playwright config \<and> playwright_available env) \<and>
    session_get env url = Some content \<and>
    (time_sleep env (delay_seconds config) = None \<or> beautiful_soup env content = None) \<longrightarrow>
      fst (fetch_page env config url s) = None \<and>
      failed_urls (snd (fetch_page env config url s)) = failed_urls s @ [url] \<and>
      visited_urls (snd (fetch_page env config url s)) = insert url (visited_urls s)) \<and>
   failed_urls (snd (crawl_documentation (world gone_web ''2024-01-01 00:00:00'')
      (default_config [''http://a.com/'']) new_fetcher))
     = [''http://a.com/gone'', ''http://a.com/gone'']"
proof (intro conjI)
  show "visited_urls (snd (fetch_page env config url s)) =
     (if should_fetch_url env config (visited_urls s) url \<and>
         (session_get env url \<noteq> None \<or>
          use_playwright config \<and> playwright_available env \<and> playwright_content env url \<noteq> None)
      then insert url (visited_urls s) else visited_urls s)"
    by (rule fetch_page_visited)
  show "session_get env url = None \<and>
    (\<not> (use_playwright config \<and> playwright_available env) \<or> playwright_content env url = None) \<longrightarrow>
      fst (fetch_page env config url s) = None \<and>
      visited_urls (snd (fetch_page env config url s)) = visited_urls s"
    using fetch_page_request_fails by blast
  show "should_fetch_url env config (visited_urls s) url \<and> \<not> (use_playwright config \<and> playwright_available env) \<and>
    session_get env url = Some content \<and>
    (time_sleep env (delay_seconds config) = None \<or> beautiful_soup env content = None) \<longrightarrow>
      fst (fetch_page env config url s) = None \<and>
      failed_urls (snd (fetch_page env config url s)) = failed_urls s @ [url] \<and>
      visited_urls (snd (fetch_page env config url s)) = insert url (visited_urls s)"
    by (auto simp: fetch_page_def fetch_with_requests_def Let_def split: option.splits)
  show "failed_urls (snd (crawl_documentation (world gone_web ''2024-01-01 00:00:00'')
      (default_config [''http://a.com/'']) new_fetcher))
     = [''http://a.com/gone'', ''http://a.com/gone'']"
    by code_simp
qed

theorem failed_request_keeps_visited_witness:
  "session_get (world gone_web ''2024-01-01 00:00:00'') ''http://a.com/gone'' = None \<and>
   fst (fetch_page (world gone_web ''2024-01-01 00:00:00'') (default_config [''http://a.com/'']) ''http://a.com/gone''
      (new_fetcher\<lparr>visited_urls := {''http://a.com/''}\<rparr>)) = None \<and>
   visited_urls (snd (fetch_page (world gone_web ''2024-01-01 00:00:00'') (default_config [''http://a.com/'']) ''http://a.com/gone''
      (new_fetcher\<lparr>visited_urls := {''http://a.com/''}\<rparr>))) = {''http://a.com/''} \<and>
   should_fetch_url (broken_world twin_web ''2024-01-01 00:00:00'') (default_config [''http://a.com/docs'']) (visited_urls new_fetcher) ''http://a.com/docs'' \<and>
   session_get (broken_world twin_web ''2024-01-01 00:00:00'') ''http://a.com/docs'' = Some ''http://a.com/docs'' \<and>
   beautiful_soup (broken_world twin_web ''2024-01-01 00:00:00'') ''http://a.com/docs'' = None \<and>
   failed_urls (snd (fetch_page (broken_world twin_web ''2024-01-01 00:00:00'')
      (default_config [''http://a.com/docs'']) ''http://a.com/docs'' new_fetcher)) = failed_urls new_fetcher @ [''http://a.com/docs''] \<and>
   visited_urls (snd (fetch_page (broken_world twin_web ''2024-01-01 00:00:00'')
      (default_config [''http://a.com/docs'']) ''http://a.com/docs'' new_fetcher)) = insert ''http://a.com/docs'' (visited_urls new_fetcher)"
proof -
  have gone: "session_get (world gone_web ''2024-01-01 00:00:00'') ''http://a.com/gone'' = None"
    by (simp add: world_def gone_web_def)
  have off: "\<not> (use_playwright (default_config [''http://a.com/'']) \<and> playwright_available (world gone_web ''2024-01-01 00:00:00''))"
    by (simp add: world_def)
  have boff: "\<not> (use_playwright (default_config [''http://a.com/docs'']) \<and> playwright_available (broken_world twin_web ''2024-01-01 00:00:00''))"
    by (simp add: world_def broken_world_def)
  have pass: "should_fetch_url (broken_world twin_web ''2024-01-01 00:00:00'') (default_config [''http://a.com/docs'']) (visited_urls new_fetcher)
      ''http://a.com/docs''"
    by (simp add: should_fetch_url_def world_def broken_world_def default_config_def
        new_fetcher_def host_of_def)
  have got: "session_get (broken_world twin_web ''2024-01-01 00:00:00'') ''http://a.com/docs'' = Some ''http://a.com/docs''"
    by (simp add: world_def broken_world_def twin_web_def)
  have rejected: "beautiful_soup (broken_world twin_web ''2024-01-01 00:00:00'') ''http://a.com/docs'' = None"
    by (simp add: broken_world_def)
  note request = failed_request_keeps_visited
    [of "world gone_web ''2024-01-01 00:00:00''" "default_config [''http://a.com/'']" "''http://a.com/gone''"
        "new_fetcher\<lparr>visited_urls := {''http://a.com/''}\<rparr>"]
  note parser = failed_request_keeps_visited
    [of "broken_world twin_web ''2024-01-01 00:00:00''" "default_config [''http://a.com/docs'']" "''http://a.com/docs''" new_fetcher "''http://a.com/docs''"]
  from request gone off
  have "fst (fetch_page (world gone_web ''2024-01-01 00:00:00'') (default_config [''http://a.com/'']) ''http://a.com/gone''
      (new_fetcher\<lparr>visited_urls := {''http://a.com/''}\<rparr>)) = None \<and>
    visited_urls (snd (fetch_page (world gone_web ''2024-01-01 00:00:00'') (default_config [''http://a.com/'']) ''http://a.com/gone''
      (new_fetcher\<lparr>visited_urls := {''http://a.com/''}\<rparr>))) =
    visited_urls (new_fetcher\<lparr>visited_urls := {''http://a.com/''}\<rparr>)"
    by blast
  then have one: "fst (fetch_page (world gone_web ''2024-01-01 00:00:00'') (default_config [''http://a.com/'']) ''http://a.com/gone''
      (new_fetcher\<lparr>visited_urls := {''http://a.com/''}\<rparr>)) = None"
    "visited_urls (snd (fetch_page (world gone_web ''2024-01-01 00:00:00'') (default_config [''http://a.com/'']) ''http://a.com/gone''
      (new_fetcher\<lparr>visited_urls := {''http://a.com/''}\<rparr>))) = {''http://a.com/''}"
    by simp_all
  from parser pass boff got rejected
  have two: "failed_urls (snd (fetch_page (broken_world twin_web ''2024-01-01 00:00:00'')
      (default_config [''http://a.com/docs'']) ''http://a.com/docs'' new_fetcher)) = failed_urls new_fetcher @ [''http://a.com/docs'']"
    "visited_urls (snd (fetch_page (broken_world twin_web ''2024-01-01 00:00:00'')
      (default_config [''http://a.com/docs'']) ''http://a.com/docs'' new_fetcher)) = insert ''http://a.com/docs'' (visited_urls new_fetcher)"
    by blast+
  from gone one pass got rejected two show ?thesis by blast
qed

section \<open>The crawl loop\<close>

lemma save_page_pages:
  "length (successful_pages (snd (save_page env config api_name n content st))) =
   Suc (length (successful_pages (snd st)))"
  by (cases st) (simp add: save_page_def Let_def)

text \<open>One run of the loop saves at most \<open>20 - processed_count\<close> pages.\<close>

lemma crawl_loop_cap:
  "length (successful_pages (snd (crawl_loop env config api_name pages processed_count st)))
     \<le> length (successful_pages (snd st)) + (20 - processed_count)"
proof (induction env config api_name pages processed_count st rule: crawl_loop.induct)
  case (1 env config api_name pages_to_process processed_count st)
  show ?case
  proof (cases "loop_guard pages_to_process processed_count")
    case False
    then show ?thesis by (subst crawl_loop.simps) simp
  next
    case True
    define url where "url = hd pages_to_process"
    define rest where "rest = tl pages_to_process"
    show ?thesis
    proof (cases "url \<in> visited_urls (snd st)")
      case seen: True
      from "1.IH"(1) [OF True url_def rest_def seen] True seen show ?thesis
        by (subst crawl_loop.simps) (simp add: url_def rest_def)
    next
      case unseen: False
      obtain r s1 where f: "fetch_page env config url (snd st) = (r, s1)"
        by (cases "fetch_page env config url (snd st)")
      have keep: "successful_pages s1 = successful_pages (snd st)"
        using fetch_page_pages [of env config url "snd st"] f by simp
      show ?thesis
      proof (cases r)
        case None
        from "1.IH"(2) [OF True url_def rest_def unseen f [symmetric, unfolded None] refl]
        show ?thesis using True unseen f None keep
          by (subst crawl_loop.simps) (simp add: url_def rest_def)
      next
        case (Some page)
        note page = this
        show ?thesis
        proof (cases "extract_page_content env config (visited_urls s1) (Some page) url")
          case None
          from "1.IH"(3) [OF True url_def rest_def unseen f [symmetric] page None]
          show ?thesis using True unseen f page None keep
            by (subst crawl_loop.simps) (simp add: url_def rest_def)
        next
          case (Some content)
          note content = this
          from "1.IH"(4) [OF True url_def rest_def unseen f [symmetric] page content]
          have "length (successful_pages (snd (crawl_loop env config api_name
                  (add_links config processed_count (pc_navigation_links content)
                     (visited_urls s1) rest)
                  (Suc processed_count)
                  (save_page env config api_name processed_count content (fst st, s1)))))
                \<le> Suc (length (successful_pages s1)) + (20 - Suc processed_count)"
            by (simp add: save_page_pages)
          moreover have "processed_count < 20"
            using True by (simp add: loop_guard_def)
          ultimately show ?thesis using True unseen f page content keep
            by (subst crawl_loop.simps) (simp add: url_def rest_def)
        qed
      qed
    qed
  qed
qed

lemma set_first_occurrences: "set (first_occurrences xs) = set xs"
  by (induction xs rule: first_occurrences.induct) auto

lemma distinct_first_occurrences: "distinct (first_occurrences xs)"
  by (induction xs rule: first_occurrences.induct) (auto simp: set_first_occurrences)

lemma length_first_occurrences: "length (first_occurrences xs) \<le> length xs"
proof (induction xs rule: first_occurrences.induct)
  case 1
  then show ?case by simp
next
  case (2 x xs)
  then have "length (first_occurrences (filter (\<lambda>y. y \<noteq> x) xs)) \<le>
             length (filter (\<lambda>y. y \<noteq> x) xs)" .
  also have "\<dots> \<le> length xs"
    by simp
  finally show ?case by simp
qed

text \<open>
  The loop that appends the links: each link that is neither pending nor visited is
  appended once, in the order of the links.
\<close>

lemma fold_append_links:
  "fold (\<lambda>link pages. if link \<notin> set pages \<and> link \<notin> visited
                        then pages @ [link] else pages)
     links pages_to_process =
   pages_to_process @
   first_occurrences
     (filter (\<lambda>link. link \<notin> set pages_to_process \<and> link \<notin> visited) links)"
proof (induction links arbitrary: pages_to_process)
  case Nil
  then show ?case by simp
next
  case (Cons link links)
  show ?case
  proof (cases "link \<notin> set pages_to_process \<and> link \<notin> visited")
    case True
    have "filter (\<lambda>l. l \<notin> set (pages_to_process @ [link]) \<and> l \<notin> visited) links =
          filter (\<lambda>y. y \<noteq> link)
            (filter (\<lambda>l. l \<notin> set pages_to_process \<and> l \<notin> visited) links)"
      by (induction links) auto
    with True Cons.IH [of "pages_to_process @ [link]"] show ?thesis
      by simp
  next
    case False
    with Cons.IH [of pages_to_process] show ?thesis
      by auto
  qed
qed

lemma add_links_eq:
  "add_links config processed_count links visited pages_to_process =
     pages_to_process @
     (if int processed_count < max_depth config
      then first_occurrences
             (filter (\<lambda>link. link \<notin> set pages_to_process \<and> link \<notin> visited)
                (take 5 links))
      else [])"
  by (simp add: add_links_def fold_append_links)

text \<open>
  Claim C2. The claim says that the loop runs only while the processed-page counter is
  below a configured \<open>maxPagesPerSite\<close>, and that new tasks are enqueued at
  \<open>depth + 1\<close>. \<open>FetcherConfig\<close> has no such option and the loop compares the counter
  with the constant 20: with a limit of 5 pages the loop of the code still runs after 5
  pages, where the specification's loop has stopped, and with a limit of 50 pages it
  stops after 20, where the specification's loop goes on. The entries the code appends
  are the URLs alone: it appends the same entries where the specification's tasks, at
  depth 1 and at depth 8, differ.
\<close>

theorem page_limit_is_not_configured:
  "loop_guard [''http://a.com/next''] 5 \<and> \<not> spec_loop_guard 5 [''http://a.com/next''] 5 \<and>
   spec_loop_guard 50 [''http://a.com/next''] 20 \<and> \<not> loop_guard [''http://a.com/next''] 20 \<and>
   add_links (default_config [''http://a.com/'']) 0 [''http://a.com/b''] {} [] =
     map fst (spec_enqueue 0 [''http://a.com/b'']) \<and>
   add_links (default_config [''http://a.com/'']) 0 [''http://a.com/b''] {} [] =
     map fst (spec_enqueue 7 [''http://a.com/b'']) \<and>
   spec_enqueue 0 [''http://a.com/b''] \<noteq> spec_enqueue 7 [''http://a.com/b'']"
  by (simp add: spec_loop_guard_def loop_guard_def add_links_def spec_enqueue_def
      default_config_def)

text \<open>
  Claim C2, as amended: for every base URL the loop runs only while the list of pending
  URLs is not empty and the processed-page counter is below the fixed limit 20, so that
  it saves at most \<open>20 - processed_count\<close> further pages. After a page was processed,
  the loop goes on with the counter increased by one and with the pending list
  extended at its end by new URLs only when the counter (before the increase) is below
  \<open>max_depth\<close>: the new URLs are those of the first 5 navigation links of the page that
  are neither pending nor visited, each once, in the order of the links. The pending
  entries are URLs without a depth.
\<close>

theorem crawl_loop_budget:
  "(loop_guard pages processed_count \<longleftrightarrow> pages \<noteq> [] \<and> processed_count < 20) \<and>
   (\<not> loop_guard pages processed_count \<longrightarrow>
      crawl_loop env config api_name pages processed_count st = st) \<and>
   length (successful_pages (snd (crawl_loop env config api_name pages processed_count st)))
     \<le> length (successful_pages (snd st)) + (20 - processed_count) \<and>
   (loop_guard (url # rest) processed_count \<and> url \<notin> visited_urls (snd st) \<and>
    fetch_page env config url (snd st) = (Some page, s1) \<and>
    extract_page_content env config (visited_urls s1) (Some page) url = Some content \<longrightarrow>
      crawl_loop env config api_name (url # rest) processed_count st =
      crawl_loop env config api_name
        (add_links config processed_count (pc_navigation_links content) (visited_urls s1) rest)
        (Suc processed_count)
        (save_page env config api_name processed_count content (fst st, s1))) \<and>
   (\<exists>new. add_links config processed_count links visited rest = rest @ new \<and>
      new = (if int processed_count < max_depth config
             then first_occurrences
                    (filter (\<lambda>link. link \<notin> set rest \<and> link \<notin> visited) (take 5 links))
             else []) \<and>
      set new \<subseteq> set (take 5 links) \<and> length new \<le> 5 \<and> distinct new \<and>
      set new \<inter> set rest = {} \<and> set new \<inter> visited = {} \<and>
      (\<not> int processed_count < max_depth config \<longrightarrow> new = []))"
proof (intro conjI)
  show "loop_guard pages processed_count \<longleftrightarrow> pages \<noteq> [] \<and> processed_count < 20"
    by (simp add: loop_guard_def)
  show "\<not> loop_guard pages processed_count \<longrightarrow>
      crawl_loop env config api_name pages processed_count st = st"
    by (subst crawl_loop.simps) simp
  show "length (successful_pages
           (snd (crawl_loop env config api_name pages processed_count st)))
     \<le> length (successful_pages (snd st)) + (20 - processed_count)"
    by (rule crawl_loop_cap)
  show "loop_guard (url # rest) processed_count \<and> url \<notin> visited_urls (snd st) \<and>
    fetch_page env config url (snd st) = (Some page, s1) \<and>
    extract_page_content env config (visited_urls s1) (Some page) url = Some content \<longrightarrow>
      crawl_loop env config api_name (url # rest) processed_count st =
      crawl_loop env config api_name
        (add_links config processed_count (pc_navigation_links content) (visited_urls s1) rest)
        (Suc processed_count)
        (save_page env config api_name processed_count content (fst st, s1))"
    by (subst crawl_loop.simps) simp
  define new where "new =
    (if int processed_count < max_depth config
     then first_occurrences
            (filter (\<lambda>link. link \<notin> set rest \<and> link \<notin> visited) (take 5 links))
     else [])"
  have eq: "add_links config processed_count links visited rest = rest @ new"
    by (simp add: add_links_eq new_def)
  have sub: "set new \<subseteq> set (take 5 links)"
    by (auto simp: new_def set_first_occurrences)
  have len: "length new \<le> 5"
  proof -
    have "length new \<le>
          length (filter (\<lambda>link. link \<notin> set rest \<and> link \<notin> visited) (take 5 links))"
      by (simp add: new_def length_first_occurrences)
    also have "\<dots> \<le> length (take 5 links)"
      by (rule length_filter_le)
    also have "\<dots> \<le> 5"
      by simp
    finally show ?thesis .
  qed
  have dis: "distinct new"
    by (simp add: new_def distinct_first_occurrences)
  have fresh: "set new \<inter> set rest = {}" "set new \<inter> visited = {}"
    by (auto simp: new_def set_first_occurrences)
  have closed: "\<not> int processed_count < max_depth config \<longrightarrow> new = []"
    by (simp add: new_def)
  from eq sub len dis fresh closed
  show "\<exists>new. add_links config processed_count links visited rest = rest @ new \<and>
      new = (if int processed_count < max_depth config
             then first_occurrences
                    (filter (\<lambda>link. link \<notin> set rest \<and> link \<notin> visited) (take 5 links))
             else []) \<and>
      set new \<subseteq> set (take 5 links) \<and> length new \<le> 5 \<and> distinct new \<and>
      set new \<inter> set rest = {} \<and> set new \<inter> visited = {} \<and>
      (\<not> int processed_count < max_depth config \<longrightarrow> new = [])"
    unfolding new_def by blast
qed

theorem crawl_loop_budget_witness:
  "loop_guard [''http://a.com/''] 0 \<and>
   \<not> loop_guard [''http://a.com/''] 20 \<and>
   crawl_loop (world gone_web ''2024-01-01 00:00:00'') (default_config [''http://a.com/''])
     ''a_com'' [''http://a.com/''] 20 ([], new_fetcher) = ([], new_fetcher) \<and>
   ''http://a.com/'' \<notin> visited_urls new_fetcher \<and>
   fetch_page (world gone_web ''2024-01-01 00:00:00'') (default_config [''http://a.com/''])
     ''http://a.com/'' new_fetcher =
     (Some (nav_page ''Home'' [''http://a.com/gone'', ''http://a.com/b'']),
      new_fetcher\<lparr>visited_urls := {''http://a.com/''}, slept := [1]\<rparr>) \<and>
   extract_page_content (world gone_web ''2024-01-01 00:00:00'')
     (default_config [''http://a.com/'']) {''http://a.com/''}
     (Some (nav_page ''Home'' [''http://a.com/gone'', ''http://a.com/b''])) ''http://a.com/'' =
     Some \<lparr>pc_url = ''http://a.com/'', pc_title = ''Home'', pc_sections = [],
           pc_api_endpoints = [], pc_code_examples = [],
           pc_navigation_links = [''http://a.com/gone'', ''http://a.com/b'']\<rparr> \<and>
   crawl_loop (world gone_web ''2024-01-01 00:00:00'') (default_config [''http://a.com/''])
     ''a_com'' [''http://a.com/''] 0 ([], new_fetcher) =
   crawl_loop (world gone_web ''2024-01-01 00:00:00'') (default_config [''http://a.com/''])
     ''a_com'' [''http://a.com/gone'', ''http://a.com/b''] 1
     (save_page (world gone_web ''2024-01-01 00:00:00'') (default_config [''http://a.com/''])
        ''a_com'' 0
        \<lparr>pc_url = ''http://a.com/'', pc_title = ''Home'', pc_sections = [],
          pc_api_endpoints = [], pc_code_examples = [],
          pc_navigation_links = [''http://a.com/gone'', ''http://a.com/b'']\<rparr>
        ([], new_fetcher\<lparr>visited_urls := {''http://a.com/''}, slept := [1]\<rparr>)) \<and>
   add_links (default_config [''http://a.com/'']) 0 [''http://a.com/gone'', ''http://a.com/b'']
     {''http://a.com/''} [] = [''http://a.com/gone'', ''http://a.com/b''] \<and>
   add_links (default_config [''http://a.com/'']) 2 [''http://a.com/gone'', ''http://a.com/b'']
     {''http://a.com/''} [] = []"
proof -
  have f: "fetch_page (world gone_web ''2024-01-01 00:00:00'') (default_config [''http://a.com/''])
     ''http://a.com/'' new_fetcher =
     (Some (nav_page ''Home'' [''http://a.com/gone'', ''http://a.com/b'']),
      new_fetcher\<lparr>visited_urls := {''http://a.com/''}, slept := [1]\<rparr>)"
    by (simp add: fetch_page_def fetch_with_requests_def time_sleep_def Let_def
      should_fetch_url_def world_def default_config_def new_fetcher_def host_of_def
      gone_web_def)
  have e: "extract_page_content (world gone_web ''2024-01-01 00:00:00'')
     (default_config [''http://a.com/'']) {''http://a.com/''}
     (Some (nav_page ''Home'' [''http://a.com/gone'', ''http://a.com/b''])) ''http://a.com/'' =
     Some \<lparr>pc_url = ''http://a.com/'', pc_title = ''Home'', pc_sections = [],
           pc_api_endpoints = [], pc_code_examples = [],
           pc_navigation_links = [''http://a.com/gone'', ''http://a.com/b'']\<rparr>"
    by code_simp
  have g: "loop_guard [''http://a.com/''] 0" "\<not> loop_guard [''http://a.com/''] 20"
    "''http://a.com/'' \<notin> visited_urls new_fetcher"
    by (simp_all add: loop_guard_def new_fetcher_def)
  have a: "add_links (default_config [''http://a.com/'']) 0 [''http://a.com/gone'', ''http://a.com/b'']
     {''http://a.com/''} [] = [''http://a.com/gone'', ''http://a.com/b'']"
     "add_links (default_config [''http://a.com/'']) 2 [''http://a.com/gone'', ''http://a.com/b'']
     {''http://a.com/''} [] = []"
    by (simp_all add: add_links_def default_config_def)
  note th1 = crawl_loop_budget [where pages = "[''http://a.com/'']" and processed_count = 20
      and env = "world gone_web ''2024-01-01 00:00:00''"
      and config = "default_config [''http://a.com/'']" and api_name = "''a_com''"
      and st = "([], new_fetcher)"]
  note th2 = crawl_loop_budget [where processed_count = 0
      and env = "world gone_web ''2024-01-01 00:00:00''"
      and config = "default_config [''http://a.com/'']" and api_name = "''a_com''"
      and st = "([], new_fetcher)" and url = "''http://a.com/''" and rest = "[]"
      and page = "nav_page ''Home'' [''http://a.com/gone'', ''http://a.com/b'']"
      and ?s1.0 = "new_fetcher\<lparr>visited_urls := {''http://a.com/''}, slept := [1]\<rparr>"
      and content = "\<lparr>pc_url = ''http://a.com/'', pc_title = ''Home'', pc_sections = [],
           pc_api_endpoints = [], pc_code_examples = [],
           pc_navigation_links = [''http://a.com/gone'', ''http://a.com/b'']\<rparr>"]
  from th1 g have stop: "crawl_loop (world gone_web ''2024-01-01 00:00:00'') (default_config [''http://a.com/''])
     ''a_com'' [''http://a.com/''] 20 ([], new_fetcher) = ([], new_fetcher)"
    by blast
  have vis: "visited_urls (new_fetcher\<lparr>visited_urls := {''http://a.com/''}, slept := [1]\<rparr>) = {''http://a.com/''}"
    by simp
  from th2 g f e have step: "crawl_loop (world gone_web ''2024-01-01 00:00:00'') (default_config [''http://a.com/''])
     ''a_com'' [''http://a.com/''] 0 ([], new_fetcher) =
   crawl_loop (world gone_web ''2024-01-01 00:00:00'') (default_config [''http://a.com/''])
     ''a_com'' [''http://a.com/gone'', ''http://a.com/b''] 1
     (save_page (world gone_web ''2024-01-01 00:00:00'') (default_config [''http://a.com/''])
        ''a_com'' 0
        \<lparr>pc_url = ''http://a.com/'', pc_title = ''Home'', pc_sections = [],
          pc_api_endpoints = [], pc_code_examples = [],
          pc_navigation_links = [''http://a.com/gone'', ''http://a.com/b'']\<rparr>
        ([], new_fetcher\<lparr>visited_urls := {''http://a.com/''}, slept := [1]\<rparr>))"
    by (simp add: a)
  from g f e stop step a show ?thesis by blast
qed

text \<open>
  Claim C5. The claim says that a URL whose fetched document parses to an empty page is
  recorded in \<open>failed_urls\<close> and gets no file. An empty page is a page to the loop: the
  empty document of \<open>empty_web\<close> is extracted with the title \<open>Untitled\<close>, its
  markdown file is written, and \<open>failed_urls\<close> stays empty.
\<close>

theorem empty_page_is_saved:
  "session_get (world empty_web ''2024-01-01 00:00:00'') ''http://a.com/'' =
     Some ''http://a.com/'' \<and>
   beautiful_soup (world empty_web ''2024-01-01 00:00:00'') ''http://a.com/'' =
     Some empty_page \<and>
   fst (crawl_documentation (world empty_web ''2024-01-01 00:00:00'')
          (default_config [''http://a.com/'']) new_fetcher)
     = [(''a_com_00_Untitled.md'', ''api_docs/a_com_00_Untitled.md'')] \<and>
   map fst (files (snd (crawl_documentation (world empty_web ''2024-01-01 00:00:00'')
          (default_config [''http://a.com/'']) new_fetcher)))
     = [''api_docs/a_com_00_Untitled.md'', ''api_docs/README.md''] \<and>
   failed_urls (snd (crawl_documentation (world empty_web ''2024-01-01 00:00:00'')
          (default_config [''http://a.com/'']) new_fetcher)) = []"
proof (intro conjI)
  show "session_get (world empty_web ''2024-01-01 00:00:00'') ''http://a.com/'' =
        Some ''http://a.com/''"
    by (simp add: world_def empty_web_def)
  show "beautiful_soup (world empty_web ''2024-01-01 00:00:00'') ''http://a.com/'' =
        Some empty_page"
    by (simp add: world_def empty_web_def)
qed code_simp+

text \<open>
  Claim C5, as amended: whenever processing one URL fails, because the fetch raises an
  error or because the fetched document is malformed and the parser rejects it, that
  URL is appended to \<open>failed_urls\<close>, no document file is written for it, and the loop
  goes on with the next pending URL rather than aborting. (A document that parses to
  an empty page is not a failure.)
\<close>

theorem failed_fetch_is_recorded:
  "(loop_guard (url # rest) processed_count \<and> url \<notin> visited_urls s \<and>
    should_fetch_url env config (visited_urls s) url \<and>
    fetch_page env config url s = (None, s1) \<longrightarrow>
      failed_urls s1 = failed_urls s @ [url] \<and>
      files s1 = files s \<and> successful_pages s1 = successful_pages s \<and>
      crawl_loop env config api_name (url # rest) processed_count (created_files, s) =
      crawl_loop env config api_name rest processed_count (created_files, s1)) \<and>
   (session_get env url = None \<and>
    (\<not> (use_playwright config \<and> playwright_available env) \<or>
     playwright_content env url = None) \<longrightarrow>
      fst (fetch_page env config url s) = None) \<and>
   (session_get env url = Some html \<and> beautiful_soup env html = None \<and>
    (\<not> (use_playwright config \<and> playwright_available env) \<or>
     playwright_content env url = None) \<longrightarrow>
      fst (fetch_page env config url s) = None)"
proof (intro conjI impI)
  assume a: "loop_guard (url # rest) processed_count \<and> url \<notin> visited_urls s \<and>
    should_fetch_url env config (visited_urls s) url \<and>
    fetch_page env config url s = (None, s1)"
  then have f: "fetch_page env config url s = (None, s1)" by simp
  from a show "failed_urls s1 = failed_urls s @ [url]"
    using fetch_page_failed by blast
  from fetch_page_pages [of env config url s] f
  show "files s1 = files s" and "successful_pages s1 = successful_pages s"
    by simp_all
  from a show "crawl_loop env config api_name (url # rest) processed_count (created_files, s) =
      crawl_loop env config api_name rest processed_count (created_files, s1)"
    by (subst crawl_loop.simps) simp
next
  assume "session_get env url = None \<and>
    (\<not> (use_playwright config \<and> playwright_available env) \<or>
     playwright_content env url = None)"
  then show "fst (fetch_page env config url s) = None"
    using fetch_page_request_fails by blast
next
  assume "session_get env url = Some html \<and> beautiful_soup env html = None \<and>
    (\<not> (use_playwright config \<and> playwright_available env) \<or>
     playwright_content env url = None)"
  then show "fst (fetch_page env config url s) = None"
    by (auto simp: fetch_page_def fetch_with_requests_def Let_def split: option.splits)
qed

theorem failed_fetch_is_recorded_witness:
  "loop_guard [''http://a.com/gone'', ''http://a.com/b''] 1 \<and>
   ''http://a.com/gone'' \<notin> visited_urls (new_fetcher\<lparr>visited_urls := {''http://a.com/''}\<rparr>) \<and>
   should_fetch_url (world gone_web ''2024-01-01 00:00:00'') (default_config [''http://a.com/'']) (visited_urls (new_fetcher\<lparr>visited_urls := {''http://a.com/''}\<rparr>)) ''http://a.com/gone'' \<and>
   session_get (world gone_web ''2024-01-01 00:00:00'') ''http://a.com/gone'' = None \<and>
   fetch_page (world gone_web ''2024-01-01 00:00:00'') (default_config [''http://a.com/'']) ''http://a.com/gone'' (new_fetcher\<lparr>visited_urls := {''http://a.com/''}\<rparr>) =
     (None, snd (fetch_page (world gone_web ''2024-01-01 00:00:00'') (default_config [''http://a.com/'']) ''http://a.com/gone'' (new_fetcher\<lparr>visited_urls := {''http://a.com/''}\<rparr>))) \<and>
   failed_urls (snd (fetch_page (world gone_web ''2024-01-01 00:00:00'') (default_config [''http://a.com/'']) ''http://a.com/gone'' (new_fetcher\<lparr>visited_urls := {''http://a.com/''}\<rparr>))) = [''http://a.com/gone''] \<and>
   files (snd (fetch_page (world gone_web ''2024-01-01 00:00:00'') (default_config [''http://a.com/'']) ''http://a.com/gone'' (new_fetcher\<lparr>visited_urls := {''http://a.com/''}\<rparr>))) = [] \<and>
   crawl_loop (world gone_web ''2024-01-01 00:00:00'') (default_config [''http://a.com/'']) ''a_com'' [''http://a.com/gone'', ''http://a.com/b''] 1 ([], new_fetcher\<lparr>visited_urls := {''http://a.com/''}\<rparr>) =
   crawl_loop (world gone_web ''2024-01-01 00:00:00'') (default_config [''http://a.com/'']) ''a_com'' [''http://a.com/b''] 1
     ([], snd (fetch_page (world gone_web ''2024-01-01 00:00:00'') (default_config [''http://a.com/'']) ''http://a.com/gone'' (new_fetcher\<lparr>visited_urls := {''http://a.com/''}\<rparr>))) \<and>
   session_get (broken_world twin_web ''2024-01-01 00:00:00'') ''http://a.com/docs'' = Some ''http://a.com/docs'' \<and>
   beautiful_soup (broken_world twin_web ''2024-01-01 00:00:00'') ''http://a.com/docs'' = None \<and>
   fst (fetch_page (broken_world twin_web ''2024-01-01 00:00:00'') (default_config [''http://a.com/docs'']) ''http://a.com/docs'' new_fetcher) = None"
proof -
  have g: "loop_guard [''http://a.com/gone'', ''http://a.com/b''] 1"
    by (simp add: loop_guard_def)
  have v: "''http://a.com/gone'' \<notin> visited_urls (new_fetcher\<lparr>visited_urls := {''http://a.com/''}\<rparr>)"
    by simp
  have f: "should_fetch_url (world gone_web ''2024-01-01 00:00:00'') (default_config [''http://a.com/'']) (visited_urls (new_fetcher\<lparr>visited_urls := {''http://a.com/''}\<rparr>)) ''http://a.com/gone''"
    by (simp add: should_fetch_url_def world_def default_config_def host_of_def)
  have n: "session_get (world gone_web ''2024-01-01 00:00:00'') ''http://a.com/gone'' = None"
    by (simp add: world_def gone_web_def)
  have off: "\<not> (use_playwright (default_config [''http://a.com/'']) \<and> playwright_available (world gone_web ''2024-01-01 00:00:00''))"
    by (simp add: world_def)
  have boff: "\<not> (use_playwright (default_config [''http://a.com/docs'']) \<and> playwright_available (broken_world twin_web ''2024-01-01 00:00:00''))"
    by (simp add: world_def broken_world_def)
  have got: "session_get (broken_world twin_web ''2024-01-01 00:00:00'') ''http://a.com/docs'' = Some ''http://a.com/docs''"
    by (simp add: world_def broken_world_def twin_web_def)
  have rejected: "beautiful_soup (broken_world twin_web ''2024-01-01 00:00:00'') ''http://a.com/docs'' = None"
    by (simp add: broken_world_def)
  note request = failed_fetch_is_recorded
    [of "''http://a.com/gone''" "[''http://a.com/b'']" 1 "new_fetcher\<lparr>visited_urls := {''http://a.com/''}\<rparr>" "world gone_web ''2024-01-01 00:00:00''" "default_config [''http://a.com/'']"
        "snd (fetch_page (world gone_web ''2024-01-01 00:00:00'') (default_config [''http://a.com/'']) ''http://a.com/gone'' (new_fetcher\<lparr>visited_urls := {''http://a.com/''}\<rparr>))" "''a_com''" "[]"]
  note parser = failed_fetch_is_recorded
    [where url = "''http://a.com/docs''" and env = "broken_world twin_web ''2024-01-01 00:00:00''" and config = "default_config [''http://a.com/docs'']" and s = new_fetcher
       and html = "''http://a.com/docs''"]
  from request n off have none: "fst (fetch_page (world gone_web ''2024-01-01 00:00:00'') (default_config [''http://a.com/'']) ''http://a.com/gone'' (new_fetcher\<lparr>visited_urls := {''http://a.com/''}\<rparr>)) = None"
    by blast
  then have pair: "fetch_page (world gone_web ''2024-01-01 00:00:00'') (default_config [''http://a.com/'']) ''http://a.com/gone'' (new_fetcher\<lparr>visited_urls := {''http://a.com/''}\<rparr>) =
     (None, snd (fetch_page (world gone_web ''2024-01-01 00:00:00'') (default_config [''http://a.com/'']) ''http://a.com/gone'' (new_fetcher\<lparr>visited_urls := {''http://a.com/''}\<rparr>)))"
    by (metis surjective_pairing)
  from request g v f pair
  have rec: "failed_urls (snd (fetch_page (world gone_web ''2024-01-01 00:00:00'') (default_config [''http://a.com/'']) ''http://a.com/gone'' (new_fetcher\<lparr>visited_urls := {''http://a.com/''}\<rparr>))) =
        failed_urls (new_fetcher\<lparr>visited_urls := {''http://a.com/''}\<rparr>) @ [''http://a.com/gone'']"
    "files (snd (fetch_page (world gone_web ''2024-01-01 00:00:00'') (default_config [''http://a.com/'']) ''http://a.com/gone'' (new_fetcher\<lparr>visited_urls := {''http://a.com/''}\<rparr>))) = files (new_fetcher\<lparr>visited_urls := {''http://a.com/''}\<rparr>)"
    "crawl_loop (world gone_web ''2024-01-01 00:00:00'') (default_config [''http://a.com/'']) ''a_com'' [''http://a.com/gone'', ''http://a.com/b''] 1 ([], new_fetcher\<lparr>visited_urls := {''http://a.com/''}\<rparr>) =
     crawl_loop (world gone_web ''2024-01-01 00:00:00'') (default_config [''http://a.com/'']) ''a_com'' [''http://a.com/b''] 1
       ([], snd (fetch_page (world gone_web ''2024-01-01 00:00:00'') (default_config [''http://a.com/'']) ''http://a.com/gone'' (new_fetcher\<lparr>visited_urls := {''http://a.com/''}\<rparr>)))"
    by blast+
  from rec(1,2) have log: "failed_urls (snd (fetch_page (world gone_web ''2024-01-01 00:00:00'') (default_config [''http://a.com/'']) ''http://a.com/gone'' (new_fetcher\<lparr>visited_urls := {''http://a.com/''}\<rparr>))) = [''http://a.com/gone'']"
    "files (snd (fetch_page (world gone_web ''2024-01-01 00:00:00'') (default_config [''http://a.com/'']) ''http://a.com/gone'' (new_fetcher\<lparr>visited_urls := {''http://a.com/''}\<rparr>))) = []"
    by (simp_all add: new_fetcher_def)
  from parser got rejected boff
  have bad: "fst (fetch_page (broken_world twin_web ''2024-01-01 00:00:00'') (default_config [''http://a.com/docs'']) ''http://a.com/docs'' new_fetcher) = None"
    by blast
  from g v f n pair log rec(3) got rejected bad show ?thesis by blast
qed

section \<open>The index document\<close>

lemma index_content_files:
  "take (length created_files)
     (drop (8 + length (base_urls config)) (index_content env config created_files s))
    = map index_entry (sort (map fst created_files))"
proof -
  define header where "header =
     [''# API Documentation Index'', '''',
      ''Generated on '' @ strftime_now env, '''',
      ''**Source URLs:**''] @
     map (\<lambda>url. ''- '' @ url) (base_urls config) @
     ['''', ''## Documentation Files'', '''']"
  define entries where "entries = map index_entry (sort (map fst created_files))"
  obtain summary where
    split: "index_content env config created_files s = header @ entries @ summary"
    unfolding index_content_def header_def entries_def by simp
  have h: "length header = 8 + length (base_urls config)"
    by (simp add: header_def)
  have e: "length entries = length created_files"
    by (simp add: entries_def)
  have "drop (8 + length (base_urls config)) (header @ entries @ summary) = entries @ summary"
    using h by (metis append_eq_conv_conj)
  then show ?thesis
    unfolding split using e entries_def by simp
qed

text \<open>
  Claim C7. The claim says that two invocations of the index builder with identical
  configuration, created files and result produce identical documents. The index
  carries the time of its generation: the same inputs one second apart give two
  different documents.
\<close>

theorem index_depends_on_clock:
  "index_content (world twin_web ''2024-01-01 00:00:00'') (default_config [''http://a.com/docs''])
      [(''a_com_00_Home.md'', ''api_docs/a_com_00_Home.md'')] new_fetcher \<noteq>
   index_content (world twin_web ''2024-01-01 00:00:01'') (default_config [''http://a.com/docs''])
      [(''a_com_00_Home.md'', ''api_docs/a_com_00_Home.md'')] new_fetcher"
  by (simp add: index_content_def world_def)

text \<open>
  Claim C7, as amended: the index is a function of the configuration, the created
  files, the result and the local time of the call. Its third line is
  \<open>Generated on\<close> with the time; with that line replaced, two invocations with the same
  configuration, created files and result give the same lines, whatever the
  environments. The lines after the header are the entries of the created files, one for
  each file name, in ascending order of the file names.
\<close>

theorem index_content_inputs:
  "(index_content env1 config created_files s)[2 := line] =
   (index_content env2 config created_files s)[2 := line] \<and>
   index_content env1 config created_files s ! 2 = ''Generated on '' @ strftime_now env1 \<and>
   take (length created_files)
     (drop (8 + length (base_urls config)) (index_content env1 config created_files s))
    = map index_entry (sort (map fst created_files)) \<and>
   sorted (sort (map fst created_files))"
proof (intro conjI)
  show "(index_content env1 config created_files s)[2 := line] =
        (index_content env2 config created_files s)[2 := line]"
    by (simp add: index_content_def)
  show "index_content env1 config created_files s ! 2 = ''Generated on '' @ strftime_now env1"
    by (simp add: index_content_def)
  show "take (length created_files)
     (drop (8 + length (base_urls config)) (index_content env1 config created_files s))
    = map index_entry (sort (map fst created_files))"
    by (rule index_content_files)
  show "sorted (sort (map fst created_files))"
    by simp
qed

section \<open>File names\<close>

lemma space_not_word: "isspace c \<Longrightarrow> \<not> is_word_char c"
  by (auto simp: isspace_def is_word_char_def ascii_lowercase_def ascii_uppercase_def digits_def
      latin1_uppercase_def latin1_lowercase_def)

lemma hyphen_not_word: "\<not> is_word_char (CHR ''-'')"
  by (simp add: is_word_char_def ascii_lowercase_def ascii_uppercase_def digits_def
      latin1_uppercase_def latin1_lowercase_def)

lemma hyphen_not_space: "\<not> isspace (CHR ''-'')"
  by (simp add: isspace_def)

lemma strip_halves: "strip s = rstrip (lstrip s)"
  by (simp add: strip_def lstrip_def rstrip_def)

lemma lstrip_mid: "\<not> isspace w \<Longrightarrow> lstrip (ys @ w # zs) = lstrip ys @ w # zs"
  by (simp add: lstrip_def dropWhile_append3)

lemma rstrip_mid: "\<not> isspace w \<Longrightarrow> rstrip (ys @ w # zs) = ys @ w # rstrip zs"
  by (simp add: rstrip_def dropWhile_append3)

lemma strip_mid: "\<not> isspace w \<Longrightarrow> strip (ys @ w # zs) = lstrip ys @ w # rstrip zs"
  by (simp add: strip_halves lstrip_mid rstrip_mid)

lemma sub_runs_mid:
  "\<not> (w = CHR ''-'' \<or> isspace w) \<Longrightarrow>
   sub_runs in_run (xs @ w # ys) = sub_runs in_run (xs @ [w]) @ sub_runs False ys"
  by (induction xs arbitrary: in_run) auto

lemma sub_runs_in_run:
  "list_all (\<lambda>c. c = CHR ''-'' \<or> isspace c) gap \<Longrightarrow>
   sub_runs True (gap @ ys) = sub_runs True ys"
  by (induction gap) auto

lemma sub_runs_gap:
  "list_all (\<lambda>c. c = CHR ''-'' \<or> isspace c) gap \<Longrightarrow>
   sub_runs False (gap @ ys) = (if gap = [] then sub_runs False ys else CHR ''-'' # sub_runs True ys)"
  by (cases gap) (auto simp: sub_runs_in_run)

lemma sub_runs_word:
  "\<not> (w = CHR ''-'' \<or> isspace w) \<Longrightarrow> sub_runs True (w # ys) = sub_runs False (w # ys)"
  by simp

text \<open>A gap of separators, stripped on a side, is empty unless it holds a hyphen.\<close>

lemma lstrip_gap:
  assumes "list_all (\<lambda>c. c = CHR ''-'' \<or> isspace c) gap"
  shows "list_all (\<lambda>c. c = CHR ''-'' \<or> isspace c) (lstrip gap) \<and>
         (lstrip gap = [] \<longleftrightarrow> CHR ''-'' \<notin> set gap)"
  using assms by (induction gap) (auto simp: lstrip_def hyphen_not_space)

lemma rstrip_gap:
  assumes "list_all (\<lambda>c. c = CHR ''-'' \<or> isspace c) gap"
  shows "list_all (\<lambda>c. c = CHR ''-'' \<or> isspace c) (rstrip gap) \<and>
         (rstrip gap = [] \<longleftrightarrow> CHR ''-'' \<notin> set gap)"
proof -
  have "list_all (\<lambda>c. c = CHR ''-'' \<or> isspace c) (rev gap)"
    using assms by (simp add: list_all_iff)
  from lstrip_gap [OF this] show ?thesis
    by (simp add: rstrip_def lstrip_def list_all_iff)
qed

text \<open>
  What the filter of \<open>safe_title\<close> keeps of a gap of characters that are no word
  characters.
\<close>

lemma filter_gap:
  assumes "list_all (\<lambda>c. \<not> is_word_char c) gap"
  shows "list_all (\<lambda>c. c = CHR ''-'' \<or> isspace c)
           (filter (\<lambda>c. is_word_char c \<or> isspace c \<or> c = CHR ''-'') gap) \<and>
         (filter (\<lambda>c. is_word_char c \<or> isspace c \<or> c = CHR ''-'') gap = [] \<longleftrightarrow>
            \<not> list_ex (\<lambda>c. c = CHR ''-'' \<or> isspace c) gap) \<and>
         (CHR ''-'' \<in> set (filter (\<lambda>c. is_word_char c \<or> isspace c \<or> c = CHR ''-'') gap) \<longleftrightarrow>
            CHR ''-'' \<in> set gap)"
  using assms by (induction gap) auto

lemma safe_title_gap:
  assumes a: "a = [] \<or> is_word_char (last a)"
    and b: "b = [] \<or> is_word_char (hd b)"
    and gap: "list_all (\<lambda>c. \<not> is_word_char c) gap"
  shows "safe_title (a @ gap @ b) =
         safe_title a @
         (if (if a = [] \<or> b = [] then CHR ''-'' \<in> set gap
              else list_ex (\<lambda>c. c = CHR ''-'' \<or> isspace c) gap)
          then ''-'' else []) @
         safe_title b"
proof -
  let ?keep = "\<lambda>c. is_word_char c \<or> isspace c \<or> c = CHR ''-''"
  let ?sep = "\<lambda>c. c = CHR ''-'' \<or> isspace c"
  define g where "g = filter ?keep gap"
  from filter_gap [OF gap] have g: "list_all ?sep g"
    "g = [] \<longleftrightarrow> \<not> list_ex ?sep gap" "CHR ''-'' \<in> set g \<longleftrightarrow> CHR ''-'' \<in> set gap"
    by (simp_all add: g_def)
  have word: "\<And>w. is_word_char w \<Longrightarrow> \<not> isspace w \<and> \<not> ?sep w"
    using space_not_word hyphen_not_word by auto
  have empty: "safe_title [] = []"
    by (simp add: safe_title_def strip_def)
  show ?thesis
  proof (cases "a = []")
    case a_empty: True
    show ?thesis
    proof (cases "b = []")
      case True
      have "safe_title gap = sub_runs False (rstrip (lstrip g))"
        by (simp add: safe_title_def g_def strip_halves)
      moreover from lstrip_gap [OF g(1)] have l: "list_all ?sep (lstrip g)"
        "lstrip g = [] \<longleftrightarrow> CHR ''-'' \<notin> set g" by simp_all
      moreover from rstrip_gap [OF l(1)] have r: "list_all ?sep (rstrip (lstrip g))"
        "rstrip (lstrip g) = [] \<longleftrightarrow> CHR ''-'' \<notin> set (lstrip g)" by simp_all
      moreover have "CHR ''-'' \<in> set (lstrip g) \<longleftrightarrow> CHR ''-'' \<in> set g"
        using g(1) by (induction g) (auto simp: lstrip_def hyphen_not_space)
      moreover have "sub_runs False (rstrip (lstrip g)) =
                     (if rstrip (lstrip g) = [] then [] else ''-'')"
        using sub_runs_gap [OF r(1), of "[]"] by simp
      ultimately show ?thesis
        using a_empty True g(3) empty by simp
    next
      case False
      with b obtain wb b' where bb: "b = wb # b'" "is_word_char wb"
        by (cases b) auto
      let ?r = "rstrip (filter ?keep b')"
      have "strip (filter ?keep (gap @ b)) = lstrip g @ wb # ?r"
        using bb word [OF bb(2)] by (simp add: g_def strip_mid)
      moreover have "strip (filter ?keep b) = wb # ?r"
        using bb word [OF bb(2)] strip_mid [of wb "[]" "filter ?keep b'"]
        by (simp add: lstrip_def)
      moreover from lstrip_gap [OF g(1)] have l: "list_all ?sep (lstrip g)"
        "lstrip g = [] \<longleftrightarrow> CHR ''-'' \<notin> set g" by simp_all
      moreover have "sub_runs False (lstrip g @ wb # ?r) =
            (if lstrip g = [] then sub_runs False (wb # ?r)
             else CHR ''-'' # sub_runs False (wb # ?r))"
        using sub_runs_gap [OF l(1), of "wb # ?r"] word [OF bb(2)] by simp
      ultimately show ?thesis
        using a_empty False g(3) empty by (simp add: safe_title_def)
    qed
  next
    case a_word: False
    with a obtain a' wa where aa: "a = a' @ [wa]" "is_word_char wa"
      by (cases a rule: rev_cases) auto
    let ?l = "lstrip (filter ?keep a')"
    have sa: "strip (filter ?keep a) = ?l @ [wa]"
      using aa word [OF aa(2)] strip_mid [of wa "filter ?keep a'" "[]"]
      by (simp add: rstrip_def)
    show ?thesis
    proof (cases "b = []")
      case True
      have "strip (filter ?keep (a @ gap)) = ?l @ wa # rstrip g"
        using aa word [OF aa(2)] by (simp add: g_def strip_mid)
      moreover from rstrip_gap [OF g(1)] have r: "list_all ?sep (rstrip g)"
        "rstrip g = [] \<longleftrightarrow> CHR ''-'' \<notin> set g" by simp_all
      moreover have "sub_runs False (rstrip g) = (if rstrip g = [] then [] else ''-'')"
        using sub_runs_gap [OF r(1), of "[]"] by simp
      moreover have "sub_runs False (?l @ wa # rstrip g) =
                     sub_runs False (?l @ [wa]) @ sub_runs False (rstrip g)"
        using sub_runs_mid word [OF aa(2)] by blast
      ultimately show ?thesis
        using a_word True g(3) sa empty by (simp add: safe_title_def)
    next
      case False
      with b obtain wb b' where bb: "b = wb # b'" "is_word_char wb"
        by (cases b) auto
      let ?r = "rstrip (filter ?keep b')"
      have "strip (filter ?keep (a @ gap @ b)) = ?l @ wa # (g @ wb # ?r)"
        using aa bb word [OF aa(2)] word [OF bb(2)]
          strip_mid [of wa "filter ?keep a'" "g @ wb # filter ?keep b'"]
          rstrip_mid [of wb g "filter ?keep b'"]
        by (simp add: g_def)
      moreover have "strip (filter ?keep b) = wb # ?r"
        using bb word [OF bb(2)] strip_mid [of wb "[]" "filter ?keep b'"]
        by (simp add: lstrip_def)
      moreover have "sub_runs False (?l @ wa # (g @ wb # ?r)) =
                     sub_runs False (?l @ [wa]) @ sub_runs False (g @ wb # ?r)"
        using sub_runs_mid word [OF aa(2)] by blast
      moreover have "sub_runs False (g @ wb # ?r) =
            (if g = [] then sub_runs False (wb # ?r)
             else CHR ''-'' # sub_runs False (wb # ?r))"
        using sub_runs_gap [OF g(1), of "wb # ?r"] word [OF bb(2)] by simp
      ultimately show ?thesis
        using a_word False g(2) sa by (simp add: safe_title_def)
    qed
  qed
qed

lemma safe_title_words:
  assumes "list_all is_word_char title"
  shows "safe_title title = title"
proof -
  have k: "filter (\<lambda>c. is_word_char c \<or> isspace c \<or> c = CHR ''-'') title = title"
    using assms by (induction title) auto
  have nosp: "list_all (\<lambda>c. \<not> isspace c) title"
    using assms space_not_word by (auto simp: list_all_iff)
  have l: "\<And>s. list_all (\<lambda>c. \<not> isspace c) s \<Longrightarrow> dropWhile isspace s = s"
    by (case_tac s) auto
  have "list_all (\<lambda>c. \<not> isspace c) (rev title)"
    using nosp by (simp add: list_all_iff)
  then have s: "strip title = title"
    using nosp by (simp add: strip_def l)
  have "\<And>f. sub_runs f title = title"
    using assms
  proof (induction title)
    case Nil
    then show ?case by simp
  next
    case (Cons c cs)
    then show ?case
      using space_not_word [of c] hyphen_not_word by auto
  qed
  with k s show ?thesis by (simp add: safe_title_def)
qed

lemma filter_dropWhile_disjoint:
  "(\<And>x. skip x \<Longrightarrow> \<not> keep x) \<Longrightarrow> filter keep (dropWhile skip xs) = filter keep xs"
  by (induction xs) auto

lemma filter_word_strip: "filter is_word_char (strip s) = filter is_word_char s"
proof -
  have "filter is_word_char (strip s) =
        rev (filter is_word_char (dropWhile isspace (rev (dropWhile isspace s))))"
    by (simp add: strip_def rev_filter)
  also have "\<dots> = rev (filter is_word_char (rev (dropWhile isspace s)))"
    by (simp add: filter_dropWhile_disjoint space_not_word)
  also have "\<dots> = filter is_word_char (dropWhile isspace s)"
    by (simp add: rev_filter)
  also have "\<dots> = filter is_word_char s"
    by (simp add: filter_dropWhile_disjoint space_not_word)
  finally show ?thesis .
qed

lemma set_strip: "set (strip s) \<subseteq> set s"
proof -
  have "set (strip s) \<subseteq> set (dropWhile isspace s)"
    unfolding strip_def using set_dropWhileD by fastforce
  also have "\<dots> \<subseteq> set s"
    using set_dropWhileD by fastforce
  finally show ?thesis .
qed

lemma filter_word_sub_runs: "filter is_word_char (sub_runs in_run cs) = filter is_word_char cs"
  by (induction cs arbitrary: in_run) (auto simp: space_not_word hyphen_not_word)

lemma sub_runs_chars:
  "list_all (\<lambda>c. is_word_char c \<or> isspace c \<or> c = CHR ''-'') cs \<Longrightarrow>
   list_all (\<lambda>c. is_word_char c \<or> c = CHR ''-'') (sub_runs in_run cs)"
  by (induction cs arbitrary: in_run) auto

lemma sub_runs_single:
  "\<not> contains (sub_runs in_run cs) ''--'' \<and>
   (in_run \<longrightarrow> \<not> prefix ''-'' (sub_runs in_run cs))"
  by (induction cs arbitrary: in_run) auto

lemma safe_title_chars: "list_all (\<lambda>c. is_word_char c \<or> c = CHR ''-'') (safe_title title)"
proof -
  have "list_all (\<lambda>c. is_word_char c \<or> isspace c \<or> c = CHR ''-'')
          (strip (filter (\<lambda>c. is_word_char c \<or> isspace c \<or> c = CHR ''-'') title))"
    using set_strip [of "filter (\<lambda>c. is_word_char c \<or> isspace c \<or> c = CHR ''-'') title"]
    by (auto simp: list_all_iff)
  then show ?thesis
    unfolding safe_title_def by (rule sub_runs_chars)
qed

lemma safe_title_word: "filter is_word_char (safe_title title) = filter is_word_char title"
proof -
  have "filter is_word_char (filter (\<lambda>c. is_word_char c \<or> isspace c \<or> c = CHR ''-'') title)
        = filter is_word_char title"
    by (induction title) auto
  then show ?thesis
    by (simp add: safe_title_def filter_word_sub_runs filter_word_strip)
qed

lemma format_02d_digits:
  "n < 100 \<Longrightarrow> format_02d n = [digits ! (n div 10), digits ! (n mod 10)]"
proof (cases "n < 10")
  case True
  then show ?thesis by (simp add: format_02d_def digits_def)
next
  case False
  assume "n < 100"
  with False have "n div 10 < 10" "\<not> n < 10" by auto
  then show ?thesis
    by (simp add: format_02d_def)
qed

lemma save_page_file:
  "fst (save_page env config api_name n content (created_files, s)) =
     AList.update (filename_of api_name n (pc_title content))
       (path_str env (output_dir config) (filename_of api_name n (pc_title content))) created_files \<and>
   map_of (files (snd (save_page env config api_name n content (created_files, s))))
     (path_str env (output_dir config) (filename_of api_name n (pc_title content)))
     = Some (convert_to_markdown content api_name)"
  by (simp add: save_page_def Let_def update_conv')

text \<open>
  Claim C8. The claim says that the slug of a file name is the title made lowercase.
  The title is never lowered: the page titled \<open>API Docs\<close> is written to
  \<open>a_com_00_API-Docs.md\<close>, whose slug differs from its lowercase form.
\<close>

theorem slug_keeps_case:
  "filename_of ''a_com'' 0 ''API Docs'' = ''a_com_00_API-Docs.md'' \<and>
   safe_title ''API Docs'' = ''API-Docs'' \<and>
   safe_title ''API Docs'' \<noteq> lower (safe_title ''API Docs'')"
  by code_simp

text \<open>
  Claim C8, as amended: the markdown file of a processed page is written under the name
  \<open><api_name>_<NN>_<slug>.md\<close>, where \<open>NN\<close> is the per-base-URL counter in two
  decimal digits (zero-padded; the counter stays below 20) and the slug is the title
  with every character other than word characters, whitespace and hyphens removed,
  leading and trailing whitespace trimmed, and every run of whitespace and hyphens
  collapsed to one hyphen; the case of the title is kept. In terms of the words of the
  title (its runs of word characters): a title of word characters is its own slug; the
  characters between two words become one hyphen when whitespace or a hyphen is among
  them, and nothing otherwise; the characters before the first word and after the last
  word become one hyphen when a hyphen is among them, and nothing otherwise. So the
  slug consists of word characters and hyphens, has no two hyphens in a row, and keeps
  the word characters of the title in their order and case.
\<close>

theorem saved_file_name:
  "filename_of api_name processed_count title =
     api_name @ ''_'' @ format_02d processed_count @ ''_'' @ safe_title title @ ''.md'' \<and>
   (processed_count < 100 \<longrightarrow>
      format_02d processed_count =
        [digits ! (processed_count div 10), digits ! (processed_count mod 10)]) \<and>
   (list_all is_word_char title \<longrightarrow> safe_title title = title) \<and>
   ((a = [] \<or> is_word_char (last a)) \<and> (b = [] \<or> is_word_char (hd b)) \<and>
    list_all (\<lambda>c. \<not> is_word_char c) gap \<longrightarrow>
      safe_title (a @ gap @ b) =
        safe_title a @
        (if (if a = [] \<or> b = [] then CHR ''-'' \<in> set gap
             else list_ex (\<lambda>c. c = CHR ''-'' \<or> isspace c) gap)
         then ''-'' else []) @
        safe_title b) \<and>
   list_all (\<lambda>c. is_word_char c \<or> c = CHR ''-'') (safe_title title) \<and>
   \<not> contains (safe_title title) ''--'' \<and>
   filter is_word_char (safe_title title) = filter is_word_char title \<and>
   fst (save_page env config api_name processed_count content (created_files, s)) =
     AList.update (filename_of api_name processed_count (pc_title content))
       (path_str env (output_dir config)
          (filename_of api_name processed_count (pc_title content))) created_files \<and>
   map_of (files (snd (save_page env config api_name processed_count content
                         (created_files, s))))
     (path_str env (output_dir config)
        (filename_of api_name processed_count (pc_title content)))
     = Some (convert_to_markdown content api_name)"
proof (intro conjI)
  show "filename_of api_name processed_count title =
     api_name @ ''_'' @ format_02d processed_count @ ''_'' @ safe_title title @ ''.md''"
    by (simp add: filename_of_def)
  show "processed_count < 100 \<longrightarrow>
      format_02d processed_count =
        [digits ! (processed_count div 10), digits ! (processed_count mod 10)]"
    by (simp add: format_02d_digits)
  show "list_all is_word_char title \<longrightarrow> safe_title title = title"
    using safe_title_words by blast
  show "(a = [] \<or> is_word_char (last a)) \<and> (b = [] \<or> is_word_char (hd b)) \<and>
    list_all (\<lambda>c. \<not> is_word_char c) gap \<longrightarrow>
      safe_title (a @ gap @ b) =
        safe_title a @
        (if (if a = [] \<or> b = [] then CHR ''-'' \<in> set gap
             else list_ex (\<lambda>c. c = CHR ''-'' \<or> isspace c) gap)
         then ''-'' else []) @
        safe_title b"
    using safe_title_gap by blast
  show "list_all (\<lambda>c. is_word_char c \<or> c = CHR ''-'') (safe_title title)"
    by (rule safe_title_chars)
  show "\<not> contains (safe_title title) ''--''"
    unfolding safe_title_def using sub_runs_single by blast
  show "filter is_word_char (safe_title title) = filter is_word_char title"
    by (rule safe_title_word)
  show "fst (save_page env config api_name processed_count content (created_files, s)) =
     AList.update (filename_of api_name processed_count (pc_title content))
       (path_str env (output_dir config)
          (filename_of api_name processed_count (pc_title content))) created_files"
    using save_page_file by blast
  show "map_of (files (snd (save_page env config api_name processed_count content
                         (created_files, s))))
     (path_str env (output_dir config)
        (filename_of api_name processed_count (pc_title content)))
     = Some (convert_to_markdown content api_name)"
    using save_page_file by blast
qed

theorem saved_file_name_witness:
  "(19::nat) < 100 \<and>
   format_02d 19 = [digits ! (19 div 10), digits ! (19 mod 10)] \<and>
   format_02d 19 = ''19'' \<and>
   list_all is_word_char ''Docs_v2'' \<and> safe_title ''Docs_v2'' = ''Docs_v2'' \<and>
   is_word_char (last ''API'') \<and> is_word_char (hd ''Docs_v2'') \<and>
   list_all (\<lambda>c. \<not> is_word_char c) ''  -- : '' \<and>
   safe_title (''API'' @ ''  -- : '' @ ''Docs_v2'') =
     safe_title ''API'' @ ''-'' @ safe_title ''Docs_v2'' \<and>
   list_all (\<lambda>c. \<not> is_word_char c) '' (!) '' \<and>
   safe_title ([] @ '' (!) '' @ ''Docs_v2'') = safe_title [] @ [] @ safe_title ''Docs_v2'' \<and>
   filename_of ''a_com'' 19 ''API  -- : Docs_v2'' =
     ''a_com'' @ ''_'' @ format_02d 19 @ ''_'' @ safe_title ''API  -- : Docs_v2'' @ ''.md'' \<and>
   filename_of ''a_com'' 19 ''API  -- : Docs_v2'' = ''a_com_19_API-Docs_v2.md''"
proof -
  note name = saved_file_name [where api_name = "''a_com''" and processed_count = 19
      and title = "''API  -- : Docs_v2''"]
  note words = saved_file_name [where title = "''Docs_v2''"]
  note middle = saved_file_name [where a = "''API''" and gap = "''  -- : ''"
      and b = "''Docs_v2''"]
  note start = saved_file_name [where a = "[]" and gap = "'' (!) ''" and b = "''Docs_v2''"]
  have less: "(19::nat) < 100" by simp
  from name less have two: "format_02d 19 = [digits ! (19 div 10), digits ! (19 mod 10)]"
    by blast
  then have nineteen: "format_02d 19 = ''19''"
    by (simp add: digits_def)
  have w: "list_all is_word_char ''Docs_v2''"
    by code_simp
  from words w have own: "safe_title ''Docs_v2'' = ''Docs_v2''"
    by blast
  have ends: "is_word_char (last ''API'')" "is_word_char (hd ''Docs_v2'')"
    by code_simp+
  have gap: "list_all (\<lambda>c. \<not> is_word_char c) ''  -- : ''"
    by code_simp
  have sep: "list_ex (\<lambda>c. c = CHR ''-'' \<or> isspace c) ''  -- : ''"
    by code_simp
  from middle ends gap sep
  have run: "safe_title (''API'' @ ''  -- : '' @ ''Docs_v2'') =
     safe_title ''API'' @ ''-'' @ safe_title ''Docs_v2''"
    by simp
  have gap2: "list_all (\<lambda>c. \<not> is_word_char c) '' (!) ''"
    by code_simp
  from start ends(2) gap2
  have trim: "safe_title ([] @ '' (!) '' @ ''Docs_v2'') =
              safe_title [] @ [] @ safe_title ''Docs_v2''"
    by simp
  from name have parts: "filename_of ''a_com'' 19 ''API  -- : Docs_v2'' =
     ''a_com'' @ ''_'' @ format_02d 19 @ ''_'' @ safe_title ''API  -- : Docs_v2'' @ ''.md''"
    by blast
  have whole: "filename_of ''a_com'' 19 ''API  -- : Docs_v2'' = ''a_com_19_API-Docs_v2.md''"
    by code_simp
  from less two nineteen w own ends gap run gap2 trim parts whole show ?thesis by blast
qed

text \<open>
  Claim C10. The file name is made from the host of the base URL, the counter and the
  slug of the title, and from nothing else: two base URLs with the same host give the
  same name to pages with the same counter and slug. The counter starts at 0 for every
  base URL, so with the base URLs \<open>http://a.com/docs\<close> and \<open>http://a.com/api\<close>, both
  titled \<open>Home\<close>, both pages are processed, one markdown file is created, and it holds
  the second page: the file of the first page was overwritten.
\<close>

theorem same_host_overwrites:
  "(urlparse_netloc env base1 = urlparse_netloc env base2 \<and>
    safe_title title1 = safe_title title2 \<longrightarrow>
      filename_of (api_name_of env base1) processed_count title1 =
      filename_of (api_name_of env base2) processed_count title2) \<and>
   map pc_url (successful_pages (snd (crawl_documentation
      (world twin_web ''2024-01-01 00:00:00'')
      (default_config [''http://a.com/docs'', ''http://a.com/api'']) new_fetcher)))
     = [''http://a.com/docs'', ''http://a.com/api''] \<and>
   fst (crawl_documentation (world twin_web ''2024-01-01 00:00:00'')
      (default_config [''http://a.com/docs'', ''http://a.com/api'']) new_fetcher)
     = [(''a_com_00_Home.md'', ''api_docs/a_com_00_Home.md'')] \<and>
   map fst (files (snd (crawl_documentation (world twin_web ''2024-01-01 00:00:00'')
      (default_config [''http://a.com/docs'', ''http://a.com/api'']) new_fetcher)))
     = [''api_docs/a_com_00_Home.md'', ''api_docs/README.md''] \<and>
   map_of (files (snd (crawl_documentation (world twin_web ''2024-01-01 00:00:00'')
      (default_config [''http://a.com/docs'', ''http://a.com/api'']) new_fetcher)))
      ''api_docs/a_com_00_Home.md''
     = Some ''# a_com - Home\<newline>\<newline>**Source:** http://a.com/api\<newline>''"
proof (intro conjI)
  show "urlparse_netloc env base1 = urlparse_netloc env base2 \<and>
    safe_title title1 = safe_title title2 \<longrightarrow>
      filename_of (api_name_of env base1) processed_count title1 =
      filename_of (api_name_of env base2) processed_count title2"
    by (simp add: filename_of_def api_name_of_def)
qed code_simp+

theorem same_host_overwrites_witness:
  "urlparse_netloc (world twin_web ''2024-01-01 00:00:00'') ''http://a.com/docs'' =
   urlparse_netloc (world twin_web ''2024-01-01 00:00:00'') ''http://a.com/api'' \<and>
   safe_title ''Home'' = safe_title ''  Home!'' \<and>
   filename_of (api_name_of (world twin_web ''2024-01-01 00:00:00'') ''http://a.com/docs'')
     0 ''Home'' =
   filename_of (api_name_of (world twin_web ''2024-01-01 00:00:00'') ''http://a.com/api'')
     0 ''  Home!''"
proof -
  have host: "urlparse_netloc (world twin_web ''2024-01-01 00:00:00'') ''http://a.com/docs'' =
      urlparse_netloc (world twin_web ''2024-01-01 00:00:00'') ''http://a.com/api''"
    by (simp add: world_def host_of_def)
  have slug: "safe_title ''Home'' = safe_title ''  Home!''"
    by code_simp
  from same_host_overwrites
    [of "world twin_web ''2024-01-01 00:00:00''" "''http://a.com/docs''" "''http://a.com/api''"
        "''Home''" "''  Home!''" 0]
    host slug
  show ?thesis by blast
qed

section \<open>Endpoints\<close>

text \<open>
  Claim C4. The claim says that a table endpoint is deduplicated by its joined cells.
  A table endpoint has neither \<open>method\<close> nor \<open>path\<close>, so the key of every table
  endpoint is \<open>GET:\<close>: of the two different rows of the table of \<open>table_region\<close>
  only the first is returned.
\<close>

theorem table_rows_share_one_key:
  "concat (map table_endpoints (find_all_table table_region)) =
     [Table_Endpoint [''users'', ''the users list''],
      Table_Endpoint [''orders'', ''the orders list'']] \<and>
   endpoint_key (Table_Endpoint [''users'', ''the users list'']) = ''GET:'' \<and>
   endpoint_key (Table_Endpoint [''orders'', ''the orders list'']) = ''GET:'' \<and>
   extract_api_endpoints (world empty_web ''2024-01-01 00:00:00'')
     (default_config [''http://a.com/'']) table_region =
     [Table_Endpoint [''users'', ''the users list'']]"
  by code_simp

lemma unique_loop_keys:
  "distinct (map endpoint_key unique_endpoints) \<Longrightarrow>
   set (map endpoint_key unique_endpoints) = seen \<Longrightarrow>
   distinct (map endpoint_key (unique_loop endpoints unique_endpoints seen)) \<and>
   set (map endpoint_key (unique_loop endpoints unique_endpoints seen)) =
     seen \<union> set (map endpoint_key endpoints)"
proof (induction endpoints arbitrary: unique_endpoints seen)
  case Nil
  then show ?case by simp
next
  case (Cons endpoint rest)
  show ?case
  proof (cases "endpoint_key endpoint \<in> seen")
    case True
    with Cons.IH [OF Cons.prems] show ?thesis by auto
  next
    case False
    have d: "distinct (map endpoint_key (unique_endpoints @ [endpoint]))"
      using Cons.prems False by auto
    have s: "set (map endpoint_key (unique_endpoints @ [endpoint])) =
             insert (endpoint_key endpoint) seen"
      using Cons.prems by auto
    from Cons.IH [OF d s] False show ?thesis by auto
  qed
qed

text \<open>
  The duplicate removal of \<open>extract_api_endpoints\<close>: the endpoints returned have
  pairwise different keys, and there are as many of them as there are different keys
  among the raw matches and table rows.
\<close>

theorem endpoints_unique_by_key:
  "distinct (map endpoint_key (extract_api_endpoints env config content)) \<and>
   length (extract_api_endpoints env config content) =
     (if extract_api_endpoints_on config
      then card (endpoint_key ` set (pattern_endpoints env (get_text content) @
                   concat (map table_endpoints (find_all_table content))))
      else 0)"
proof (cases "extract_api_endpoints_on config")
  case False
  then show ?thesis by (simp add: extract_api_endpoints_def)
next
  case True
  define raw where "raw = pattern_endpoints env (get_text content) @
              concat (map table_endpoints (find_all_table content))"
  from unique_loop_keys [of "[]" "{}" raw]
  have d: "distinct (map endpoint_key (unique_loop raw [] {}))"
    and s: "set (map endpoint_key (unique_loop raw [] {})) = set (map endpoint_key raw)"
    by simp_all
  have "length (unique_loop raw [] {}) = length (map endpoint_key (unique_loop raw [] {}))"
    by simp
  also have "\<dots> = card (set (map endpoint_key (unique_loop raw [] {})))"
    using d by (simp only: distinct_card)
  also have "\<dots> = card (endpoint_key ` set raw)"
    using s by (simp only: set_map)
  finally have "length (unique_loop raw [] {}) = card (endpoint_key ` set raw)" .
  with True d show ?thesis
    unfolding raw_def by (simp add: extract_api_endpoints_def)
qed

text \<open>
  For two pattern endpoints, whose methods are among the five verbs, the keys are equal
  exactly when method and path are.
\<close>

theorem endpoint_key_pairs:
  assumes "m1 \<in> set http_methods" and "m2 \<in> set http_methods"
  shows "endpoint_key (Endpoint m1 p1) = endpoint_key (Endpoint m2 p2) \<longleftrightarrow> m1 = m2 \<and> p1 = p2"
  using assms by (auto simp: endpoint_key_def http_methods_def)

theorem endpoint_key_pairs_witness:
  "''GET'' \<in> set http_methods \<and> ''POST'' \<in> set http_methods \<and>
   endpoint_key (Endpoint ''GET'' ''/users'') \<noteq> endpoint_key (Endpoint ''POST'' ''/users'')"
proof -
  have m: "''GET'' \<in> set http_methods" "''POST'' \<in> set http_methods"
    by (simp_all add: http_methods_def)
  from endpoint_key_pairs [OF m, of "''/users''" "''/users''"] m show ?thesis
    by simp
qed

end
